theory Spec2Isabelle
  imports Main "HOL-Library.AList"
begin

section \<open>Python values\<close>

text \<open>
  The payloads handled by \<^verbatim>\<open>tweet.py\<close> are parsed JSON: \<^verbatim>\<open>None\<close>, booleans, integers,
  strings, lists and dictionaries with string keys. A dictionary is an association list
  in insertion order, read with \<^const>\<open>map_of\<close> and written with \<^const>\<open>AList.update\<close>
  (an existing key keeps its position, a new key goes to the end, as in Python).
  Python does not check the annotated field types of a dataclass, so every field that
  is copied from a payload holds a \<open>json\<close> value; Python's \<^verbatim>\<open>None\<close> is \<open>JNull\<close>.
  Floating point numbers are left out: the source never computes with them.
\<close>

datatype json =
    JNull
  | JBool bool
  | JInt int
  | JStr string
  | JList "json list"
  | JObj "(string \<times> json) list"

text \<open>
  The exceptions of the model: \<^verbatim>\<open>KeyError\<close> (the spec's MissingField) with the missing key,
  \<^verbatim>\<open>TypeError\<close> and \<^verbatim>\<open>AttributeError\<close> for an operation on a value of the wrong kind, and
  \<open>ApiError\<close> for whatever the external client raises.
\<close>

datatype error = KeyError string | TypeError | AttributeError | ApiError string

definition bindE :: "error + 'a \<Rightarrow> ('a \<Rightarrow> error + 'b) \<Rightarrow> error + 'b" where
  "bindE m f = (case m of Inl e \<Rightarrow> Inl e | Inr x \<Rightarrow> f x)"

fun mapE :: "('a \<Rightarrow> error + 'b) \<Rightarrow> 'a list \<Rightarrow> error + 'b list" where
  "mapE f [] = Inr []"
| "mapE f (x # xs) = bindE (f x) (\<lambda>y. bindE (mapE f xs) (\<lambda>ys. Inr (y # ys)))"

text \<open>Truthiness, as \<^verbatim>\<open>if v:\<close> tests it.\<close>

fun truthy :: "json \<Rightarrow> bool" where
  "truthy JNull = False"
| "truthy (JBool b) = b"
| "truthy (JInt n) = (n \<noteq> 0)"
| "truthy (JStr s) = (s \<noteq> [])"
| "truthy (JList xs) = (xs \<noteq> [])"
| "truthy (JObj d) = (d \<noteq> [])"

fun starts_with :: "string \<Rightarrow> string \<Rightarrow> bool" where
  "starts_with [] s = True"
| "starts_with (c # k) [] = False"
| "starts_with (c # k) (c' # s) = (c = c' \<and> starts_with k s)"

fun is_substring :: "string \<Rightarrow> string \<Rightarrow> bool" where
  "is_substring k [] = (k = [])"
| "is_substring k (c # s) = (starts_with k (c # s) \<or> is_substring k s)"

text \<open>
  \<^verbatim>\<open>k in v\<close> for a string \<open>k\<close>: key membership in a dictionary, element membership in a
  list, substring test in a string, \<^verbatim>\<open>TypeError\<close> on anything else.
\<close>

fun py_in :: "string \<Rightarrow> json \<Rightarrow> error + bool" where
  "py_in k (JObj d) = Inr (map_of d k \<noteq> None)"
| "py_in k (JList xs) = Inr (JStr k \<in> set xs)"
| "py_in k (JStr s) = Inr (is_substring k s)"
| "py_in k JNull = Inl TypeError"
| "py_in k (JBool b) = Inl TypeError"
| "py_in k (JInt n) = Inl TypeError"

text \<open>
  \<^verbatim>\<open>v[k]\<close> for a string \<open>k\<close>: the value of the key in a dictionary, \<^verbatim>\<open>KeyError\<close> when the
  key is missing, \<^verbatim>\<open>TypeError\<close> on anything that is not a dictionary.
\<close>

fun py_getitem :: "json \<Rightarrow> string \<Rightarrow> error + json" where
  "py_getitem (JObj d) k = (case map_of d k of None \<Rightarrow> Inl (KeyError k) | Some v \<Rightarrow> Inr v)"
| "py_getitem JNull k = Inl TypeError"
| "py_getitem (JBool b) k = Inl TypeError"
| "py_getitem (JInt n) k = Inl TypeError"
| "py_getitem (JStr s) k = Inl TypeError"
| "py_getitem (JList xs) k = Inl TypeError"

text \<open>\<^verbatim>\<open>v.get(k, None)\<close>: only a dictionary has the method.\<close>

fun py_get :: "json \<Rightarrow> string \<Rightarrow> error + json" where
  "py_get (JObj d) k = Inr (case map_of d k of None \<Rightarrow> JNull | Some v \<Rightarrow> v)"
| "py_get JNull k = Inl AttributeError"
| "py_get (JBool b) k = Inl AttributeError"
| "py_get (JInt n) k = Inl AttributeError"
| "py_get (JStr s) k = Inl AttributeError"
| "py_get (JList xs) k = Inl AttributeError"

text \<open>
  \<^verbatim>\<open>v[k] = x\<close> for a string \<open>k\<close>, returning the value \<open>v\<close> stands for afterwards: only a
  dictionary takes the assignment.
\<close>

fun py_setitem :: "json \<Rightarrow> string \<Rightarrow> json \<Rightarrow> error + json" where
  "py_setitem (JObj d) k x = Inr (JObj (AList.update k x d))"
| "py_setitem JNull k x = Inl TypeError"
| "py_setitem (JBool b) k x = Inl TypeError"
| "py_setitem (JInt n) k x = Inl TypeError"
| "py_setitem (JStr s) k x = Inl TypeError"
| "py_setitem (JList xs) k x = Inl TypeError"

text \<open>
  The items \<^verbatim>\<open>for x in v\<close> and \<^verbatim>\<open>tuple(v)\<close> go through: the elements of a list, the
  characters of a string, the keys of a dictionary; \<^verbatim>\<open>TypeError\<close> on anything else.
\<close>

fun py_iter :: "json \<Rightarrow> error + json list" where
  "py_iter (JList xs) = Inr xs"
| "py_iter (JStr s) = Inr (map (\<lambda>c. JStr [c]) s)"
| "py_iter (JObj d) = Inr (map (\<lambda>kv. JStr (fst kv)) d)"
| "py_iter JNull = Inl TypeError"
| "py_iter (JBool b) = Inl TypeError"
| "py_iter (JInt n) = Inl TypeError"

section \<open>The model layer: tweet.py\<close>

text \<open>
  Each dataclass is a datatype whose constructor takes the fields in the order of the
  class body. The fields \<^verbatim>\<open>id\<close> and \<^verbatim>\<open>text\<close> are written \<open>id'\<close> and \<open>text'\<close>.
\<close>

datatype TweetUser = TweetUser
  (id': json) (name: json) (screen_name: json) (location: json) (url: json)
  (description: json) (protected: json) (verified: json) (followers_count: json)
  (friends_count: json) (listed_count: json) (favourites_count: json)
  (statuses_count: json) (created_at: json) (profile_banner_url: json)
  (profile_image_url_https: json) (default_profile: json)
  (default_profile_image: json) (withheld_in_countries: json)

datatype Hashtag = Hashtag (indices: "json list") (text': json)

datatype Url = Url (display_url: json) (expanded_url: json) (indices: "json list") (url: json)

datatype UserMention = UserMention (id': json) (indices: "json list") (name: json) (screen_name: json)

datatype Symbol = Symbol (indices: "json list") (text': json)

datatype Entities = Entities
  (hashtags: "Hashtag list") (urls: "Url list") (user_mentions: "UserMention list")
  (symbols: "Symbol list")

datatype Tweet = Tweet
  (created_at: json) (id': json) (full_text: json) (source: json)
  (in_reply_to_status_id: json) (in_reply_to_user_id: json) (in_reply_to_screen_name: json)
  (user: TweetUser) (coordinates: json) (place: json) (is_quote_status: json)
  (quoted_status_id: json) (quoted_status: "Tweet option") (retweet_count: json)
  (favorite_count: json) (entities: Entities) (favorited: json) (retweeted: json)
  (possibly_sensitive: json) (lang: json) (retweeted_status: "Tweet option")

subsection \<open>The deserializers without recursion\<close>

text \<open>
  The keyword arguments of a constructor call are evaluated from first to last, and the
  first exception ends the call: a chain of \<^const>\<open>bindE\<close> in the order of the source.
\<close>

definition TweetUser_deserializer :: "json \<Rightarrow> error + TweetUser" where
  "TweetUser_deserializer data =
     bindE (py_getitem data ''id'') (\<lambda>id'.
     bindE (py_getitem data ''name'') (\<lambda>name.
     bindE (py_getitem data ''screen_name'') (\<lambda>screen_name.
     bindE (py_getitem data ''location'') (\<lambda>location.
     bindE (py_getitem data ''url'') (\<lambda>url.
     bindE (py_getitem data ''description'') (\<lambda>description.
     bindE (py_getitem data ''protected'') (\<lambda>protected.
     bindE (py_getitem data ''verified'') (\<lambda>verified.
     bindE (py_getitem data ''followers_count'') (\<lambda>followers_count.
     bindE (py_getitem data ''friends_count'') (\<lambda>friends_count.
     bindE (py_getitem data ''listed_count'') (\<lambda>listed_count.
     bindE (py_getitem data ''favourites_count'') (\<lambda>favourites_count.
     bindE (py_getitem data ''statuses_count'') (\<lambda>statuses_count.
     bindE (py_getitem data ''created_at'') (\<lambda>created_at.
     bindE (py_get data ''profile_banner_url'') (\<lambda>profile_banner_url.
     bindE (py_getitem data ''profile_image_url_https'') (\<lambda>profile_image_url_https.
     bindE (py_getitem data ''default_profile'') (\<lambda>default_profile.
     bindE (py_getitem data ''default_profile_image'') (\<lambda>default_profile_image.
     bindE (py_getitem data ''withheld_in_countries'') (\<lambda>withheld_in_countries.
     Inr (TweetUser id' name screen_name location url description protected verified
            followers_count friends_count listed_count favourites_count statuses_count
            created_at profile_banner_url profile_image_url_https default_profile
            default_profile_image withheld_in_countries))))))))))))))))))))"

definition Hashtag_deserializer :: "json \<Rightarrow> error + Hashtag" where
  "Hashtag_deserializer data =
     bindE (bindE (py_getitem data ''indices'') py_iter) (\<lambda>indices.
     bindE (py_getitem data ''text'') (\<lambda>text'.
     Inr (Hashtag indices text')))"

definition Url_deserializer :: "json \<Rightarrow> error + Url" where
  "Url_deserializer data =
     bindE (py_getitem data ''display_url'') (\<lambda>display_url.
     bindE (py_getitem data ''expanded_url'') (\<lambda>expanded_url.
     bindE (bindE (py_getitem data ''indices'') py_iter) (\<lambda>indices.
     bindE (py_getitem data ''url'') (\<lambda>url.
     Inr (Url display_url expanded_url indices url)))))"

definition UserMention_deserializer :: "json \<Rightarrow> error + UserMention" where
  "UserMention_deserializer data =
     bindE (py_getitem data ''id'') (\<lambda>id'.
     bindE (bindE (py_getitem data ''indices'') py_iter) (\<lambda>indices.
     bindE (py_getitem data ''name'') (\<lambda>name.
     bindE (py_getitem data ''screen_name'') (\<lambda>screen_name.
     Inr (UserMention id' indices name screen_name)))))"

definition Symbol_deserializer :: "json \<Rightarrow> error + Symbol" where
  "Symbol_deserializer data =
     bindE (bindE (py_getitem data ''indices'') py_iter) (\<lambda>indices.
     bindE (py_getitem data ''text'') (\<lambda>text'.
     Inr (Symbol indices text')))"

text \<open>
  A list comprehension \<^verbatim>\<open>[f(x) for x in data[k]]\<close> reads the key, goes through the items
  of the value and stops at the first item on which \<open>f\<close> raises.
\<close>

definition comprehension :: "(json \<Rightarrow> error + 'a) \<Rightarrow> json \<Rightarrow> string \<Rightarrow> error + 'a list" where
  "comprehension f data k = bindE (bindE (py_getitem data k) py_iter) (mapE f)"

definition Entities_deserializer :: "json \<Rightarrow> error + Entities" where
  "Entities_deserializer data =
     bindE (comprehension Hashtag_deserializer data ''hashtags'') (\<lambda>hashtags.
     bindE (comprehension Url_deserializer data ''urls'') (\<lambda>urls.
     bindE (comprehension UserMention_deserializer data ''user_mentions'') (\<lambda>user_mentions.
     bindE (comprehension Symbol_deserializer data ''symbols'') (\<lambda>symbols.
     Inr (Entities hashtags urls user_mentions symbols)))))"

subsection \<open>Tweet.deserializer\<close>

text \<open>
  Lines 333 to 339: when the payload has no key \<^verbatim>\<open>full_text\<close>, the resolved text is
  written into the payload itself. The function returns the payload as it is after
  these lines. \<^verbatim>\<open>a and b\<close> evaluates \<open>b\<close> only when \<open>a\<close> is truthy.
\<close>

definition resolve_full_text :: "json \<Rightarrow> error + json" where
  "resolve_full_text data =
     bindE (py_in ''full_text'' data) (\<lambda>has_full_text.
     if \<not> has_full_text then
       bindE (py_getitem data ''truncated'') (\<lambda>truncated.
       bindE (if truthy truncated then py_in ''extended_tweet'' data else Inr False)
         (\<lambda>extended.
       if extended then
         bindE (py_getitem data ''extended_tweet'') (\<lambda>extended_tweet.
         bindE (py_getitem extended_tweet ''full_text'') (\<lambda>v.
         py_setitem data ''full_text'' v))
       else
         bindE (bindE (py_in ''retweeted_status'' data) (\<lambda>is_retweet.
                if is_retweet then
                  bindE (py_getitem data ''retweeted_status'') (py_in ''extended_tweet'')
                else Inr False))
           (\<lambda>retweet_extended.
         if retweet_extended then
           bindE (py_getitem data ''retweeted_status'') (\<lambda>retweeted_status.
           bindE (py_getitem retweeted_status ''extended_tweet'') (\<lambda>extended_tweet.
           bindE (py_getitem extended_tweet ''full_text'') (\<lambda>v.
           py_setitem data ''full_text'' v)))
         else
           bindE (py_getitem data ''text'') (\<lambda>v.
           py_setitem data ''full_text'' v))))
     else Inr data)"

text \<open>
  The arguments of the constructor call of lines 341 to 363 in three stretches:
  \<^verbatim>\<open>created_at\<close> to \<^verbatim>\<open>quoted_status_id\<close>, then \<^verbatim>\<open>quoted_status\<close>, then \<^verbatim>\<open>retweet_count\<close> to
  \<^verbatim>\<open>lang\<close>, then \<^verbatim>\<open>retweeted_status\<close>. The first stretch returns the constructor applied to
  its twelve arguments, the second one supplies the next seven.
\<close>

definition Tweet_args_before_quoted ::
  "json \<Rightarrow> error + (Tweet option \<Rightarrow> json \<Rightarrow> json \<Rightarrow> Entities \<Rightarrow> json \<Rightarrow> json \<Rightarrow> json \<Rightarrow> json
                    \<Rightarrow> Tweet option \<Rightarrow> Tweet)" where
  "Tweet_args_before_quoted data =
     bindE (py_getitem data ''created_at'') (\<lambda>created_at.
     bindE (py_getitem data ''id'') (\<lambda>id'.
     bindE (py_getitem data ''full_text'') (\<lambda>full_text.
     bindE (py_getitem data ''source'') (\<lambda>source.
     bindE (py_getitem data ''in_reply_to_status_id'') (\<lambda>in_reply_to_status_id.
     bindE (py_getitem data ''in_reply_to_user_id'') (\<lambda>in_reply_to_user_id.
     bindE (py_getitem data ''in_reply_to_screen_name'') (\<lambda>in_reply_to_screen_name.
     bindE (bindE (py_getitem data ''user'') TweetUser_deserializer) (\<lambda>user.
     bindE (py_getitem data ''coordinates'') (\<lambda>coordinates.
     bindE (py_getitem data ''place'') (\<lambda>place.
     bindE (py_getitem data ''is_quote_status'') (\<lambda>is_quote_status.
     bindE (py_get data ''quoted_status_id'') (\<lambda>quoted_status_id.
     Inr (Tweet created_at id' full_text source in_reply_to_status_id in_reply_to_user_id
            in_reply_to_screen_name user coordinates place is_quote_status
            quoted_status_id)))))))))))))"

definition Tweet_args_before_retweeted ::
  "json \<Rightarrow> (json \<Rightarrow> json \<Rightarrow> Entities \<Rightarrow> json \<Rightarrow> json \<Rightarrow> json \<Rightarrow> json \<Rightarrow> Tweet option \<Rightarrow> Tweet)
     \<Rightarrow> error + (Tweet option \<Rightarrow> Tweet)" where
  "Tweet_args_before_retweeted data mk =
     bindE (py_getitem data ''retweet_count'') (\<lambda>retweet_count.
     bindE (py_getitem data ''favorite_count'') (\<lambda>favorite_count.
     bindE (bindE (py_getitem data ''entities'') Entities_deserializer) (\<lambda>entities.
     bindE (py_getitem data ''favorited'') (\<lambda>favorited.
     bindE (py_getitem data ''retweeted'') (\<lambda>retweeted.
     bindE (py_get data ''possibly_sensitive'') (\<lambda>possibly_sensitive.
     bindE (py_getitem data ''lang'') (\<lambda>lang.
     Inr (mk retweet_count favorite_count entities favorited retweeted possibly_sensitive
            lang))))))))"

text \<open>
  A nested payload is an object of its own that the outer dictionary refers to; the
  recursive call may write into it, and the outer dictionary shows the change. A parsed
  JSON document is a tree (no object is referred to twice), so the model puts the
  nested payload, as the call left it, back under its key.
\<close>

definition with_child :: "json \<Rightarrow> string \<Rightarrow> json \<Rightarrow> json" where
  "with_child data k child =
     (case data of JObj d \<Rightarrow> JObj (AList.update k child d) | _ \<Rightarrow> data)"

text \<open>
  \<^verbatim>\<open>Tweet.deserializer(data[k]) if k in data else None\<close>, with the payload afterwards.
\<close>

definition nested_status ::
  "(json \<Rightarrow> (error + Tweet) \<times> json) \<Rightarrow> json \<Rightarrow> string \<Rightarrow> (error + Tweet option) \<times> json" where
  "nested_status deserializer data k =
     (case py_in k data of
        Inl e \<Rightarrow> (Inl e, data)
      | Inr present \<Rightarrow>
          if present then
            (case py_getitem data k of
               Inl e \<Rightarrow> (Inl e, data)
             | Inr child \<Rightarrow>
                 (case deserializer child of
                    (Inl e, child') \<Rightarrow> (Inl e, with_child data k child')
                  | (Inr t, child') \<Rightarrow> (Inr (Some t), with_child data k child')))
          else (Inr None, data))"

lemma nested_status_cong [fundef_cong]:
  assumes "data = data'" "k = k'"
    and "\<And>child. py_getitem data' k' = Inr child \<Longrightarrow> f child = g child"
  shows "nested_status f data k = nested_status g data' k'"
  using assms by (auto simp: nested_status_def split: sum.splits)

lemma bindE_Inl [simp]: "bindE (Inl e) f = Inl e"
  by (simp add: bindE_def)

lemma bindE_Inr [simp]: "bindE (Inr x) f = f x"
  by (simp add: bindE_def)

lemma bindE_Inr_iff: "bindE m f = Inr y \<longleftrightarrow> (\<exists>x. m = Inr x \<and> f x = Inr y)"
  by (cases m) simp_all

lemma bindE_InrE:
  assumes "bindE m f = Inr y"
  obtains x where "m = Inr x" "f x = Inr y"
  using assms by (auto simp: bindE_Inr_iff)

lemma size_map_of: "map_of d k = Some v \<Longrightarrow> size v < size (JObj d)"
  by (induction d) (auto split: if_splits)

lemma size_py_getitem: "py_getitem data k = Inr v \<Longrightarrow> size v < size data"
  by (cases data) (auto split: option.splits dest: size_map_of)

lemma py_getitem_py_setitem:
  "py_setitem data k x = Inr data' \<Longrightarrow> k' \<noteq> k \<Longrightarrow> py_getitem data' k' = py_getitem data k'"
  by (cases data) (auto simp: update_conv')

lemma resolve_full_text_cases:
  assumes "resolve_full_text data = Inr data'"
  shows "data' = data \<or> (\<exists>v. py_setitem data ''full_text'' v = Inr data')"
  using assms unfolding resolve_full_text_def
  by (elim bindE_InrE) (auto split: if_splits elim!: bindE_InrE)

lemma py_getitem_resolve_full_text:
  assumes "resolve_full_text data = Inr data'" and "k \<noteq> ''full_text''"
  shows "py_getitem data' k = py_getitem data k"
  using resolve_full_text_cases [OF assms(1)] assms(2)
  by (auto simp: py_getitem_py_setitem)

lemma py_getitem_with_child:
  "k' \<noteq> k \<Longrightarrow> py_getitem (with_child data k c) k' = py_getitem data k'"
  by (cases data) (auto simp: with_child_def update_conv')

lemma snd_nested_status_getitem:
  "k' \<noteq> k \<Longrightarrow> py_getitem (snd (nested_status f data k)) k' = py_getitem data k'"
  by (auto simp: nested_status_def py_getitem_with_child split: sum.splits prod.splits)

text \<open>
  \<^verbatim>\<open>Tweet.deserializer\<close> returns the tweet, or the exception raised, together with the
  payload as the call leaves it. The recursion is on the nested payloads, which are
  smaller than the payload they are part of.
\<close>

function Tweet_deserializer :: "json \<Rightarrow> (error + Tweet) \<times> json" where
  "Tweet_deserializer data =
     (case resolve_full_text data of
        Inl e \<Rightarrow> (Inl e, data)
      | Inr data1 \<Rightarrow>
     (case Tweet_args_before_quoted data1 of
        Inl e \<Rightarrow> (Inl e, data1)
      | Inr mk1 \<Rightarrow>
     (case nested_status Tweet_deserializer data1 ''quoted_status'' of
        (Inl e, data2) \<Rightarrow> (Inl e, data2)
      | (Inr quoted_st, data2) \<Rightarrow>
     (case Tweet_args_before_retweeted data2 (mk1 quoted_st) of
        Inl e \<Rightarrow> (Inl e, data2)
      | Inr mk2 \<Rightarrow>
     (case nested_status Tweet_deserializer data2 ''retweeted_status'' of
        (Inl e, data3) \<Rightarrow> (Inl e, data3)
      | (Inr retweeted_st, data3) \<Rightarrow> (Inr (mk2 retweeted_st), data3))))))"
  by pat_completeness auto
termination
proof (relation "measure size", goal_cases)
  case 1
  show ?case by simp
next
  case (2 data data1 mk1 child)
  then show ?case
    by (simp add: py_getitem_resolve_full_text size_py_getitem)
next
  case (3 data data1 mk1 x data2 quoted_st mk2 child)
  from 3(3) have "data2 = snd (nested_status Tweet_deserializer data1 ''quoted_status'')"
    by (metis snd_conv)
  with 3(6) have "py_getitem data1 ''retweeted_status'' = Inr child"
    by (simp add: snd_nested_status_getitem)
  with 3(1) show ?case
    by (simp add: py_getitem_resolve_full_text size_py_getitem)
qed

declare Tweet_deserializer.simps [simp del]

section \<open>The collector: data_getter.py\<close>

subsection \<open>verify_authentication\<close>

text \<open>
  \<^verbatim>\<open>self.api.verify_credentials()\<close> is a call of the external client: the model takes its
  outcome, a returned value or a raised exception. The bare \<^verbatim>\<open>except:\<close> catches every
  exception.
\<close>

definition verify_authentication :: "error + json \<Rightarrow> bool" where
  "verify_authentication verify_credentials =
     (case verify_credentials of
        Inr identity \<Rightarrow> (if truthy identity then True else False)
      | Inl e \<Rightarrow> False)"

subsection \<open>collect_tweets\<close>

text \<open>
  A \<^verbatim>\<open>tweepy.Status\<close> carries its \<^verbatim>\<open>id\<close> and the raw payload \<^verbatim>\<open>_json\<close>.
\<close>

datatype Status = Status (id': int) (json: json)

text \<open>
  \<^verbatim>\<open>method\<close> is a callable of the external client, and what it returns may depend on
  anything. A run of the loop is determined by the responses the method gives to the
  successive calls, so the model takes the list of these responses, a page of items
  or a raised exception, and logs the keyword arguments \<^verbatim>\<open>count\<close> and \<^verbatim>\<open>max_id\<close> of every
  call (\<open>None\<close> when \<^verbatim>\<open>max_id\<close> is not passed).
  The loop may run forever (a method that never returns an empty page, with a count
  that never reaches zero), so the result is \<open>None\<close> when the loop asks for a response
  beyond the list: the list is too short to tell how the run ends.
\<close>

datatype response = Page "Status list" | Raises error

type_synonym call = "int \<times> int option"

definition MAX_COUNT :: int where
  "MAX_COUNT = 200"

text \<open>
  The state of the loop is \<open>cnt\<close>, \<open>oldest_id\<close> and \<open>result\<close>; \<open>calls\<close> is the log.
  An exception of \<^verbatim>\<open>method\<close> is not caught and ends the call.
\<close>

fun collect_loop ::
  "response list \<Rightarrow> int \<Rightarrow> int option \<Rightarrow> Status list \<Rightarrow> call list
     \<Rightarrow> (call list \<times> (error + Status list)) option" where
  "collect_loop [] cnt oldest_id result calls =
     (if cnt \<noteq> 0 then None else Some (calls, Inr result))"
| "collect_loop (r # rs) cnt oldest_id result calls =
     (if cnt \<noteq> 0 then
        (let call = (case oldest_id of
                       None \<Rightarrow> (min MAX_COUNT cnt, None)
                     | Some oldest \<Rightarrow> (min MAX_COUNT cnt, Some (oldest - 1)))
         in case r of
              Raises e \<Rightarrow> Some (calls @ [call], Inl e)
            | Page new_tweets \<Rightarrow>
                if length new_tweets = 0 then Some (calls @ [call], Inr result)
                else collect_loop rs (cnt - int (length new_tweets))
                       (Some (Status.id' (last new_tweets))) (result @ new_tweets)
                       (calls @ [call]))
      else Some (calls, Inr result))"

definition collect_tweets ::
  "response list \<Rightarrow> int \<Rightarrow> (call list \<times> (error + Status list)) option" where
  "collect_tweets method count = collect_loop method count None [] []"

subsection \<open>Presentation helpers\<close>

text \<open>
  An f-string formats a field with \<^verbatim>\<open>str\<close>, a builtin of Python: it is the parameter
  \<open>str\<close> of the model. A dataclass instance is truthy and \<^verbatim>\<open>None\<close> is not, so
  \<^verbatim>\<open>if tweet.retweeted_status\<close> tests that the field is not \<open>None\<close>.
\<close>

definition nl :: string where
  "nl = [CHR 0x0A]"

definition pretty_print :: "(json \<Rightarrow> string) \<Rightarrow> Tweet \<Rightarrow> string" where
  "pretty_print str tweet =
     (if retweeted_status tweet \<noteq> None
         \<and> \<not> (quoted_status (the (retweeted_status tweet)) \<noteq> None) then
        ''A new retweet'' @ nl
        @ ''sender: '' @ str (TweetUser.screen_name (user tweet)) @ nl
        @ ''retweet from: ''
        @ str (TweetUser.screen_name (user (the (retweeted_status tweet)))) @ nl
        @ ''text: '' @ str (full_text (the (retweeted_status tweet)))
      else if retweeted_status tweet \<noteq> None then
        ''A new retweet'' @ nl
        @ ''sender: '' @ str (TweetUser.screen_name (user tweet)) @ nl
        @ ''retweet from: ''
        @ str (TweetUser.screen_name (user (the (retweeted_status tweet)))) @ nl
        @ ''quoted from: ''
        @ str (TweetUser.screen_name
                 (user (the (quoted_status (the (retweeted_status tweet)))))) @ nl
        @ ''text: '' @ str (full_text (the (retweeted_status tweet))) @ nl
        @ ''origin text: ''
        @ str (full_text (the (quoted_status (the (retweeted_status tweet)))))
      else if quoted_status tweet \<noteq> None then
        ''A new quoted tweet'' @ nl
        @ ''sender: '' @ str (TweetUser.screen_name (user tweet)) @ nl
        @ ''quoted from: ''
        @ str (TweetUser.screen_name (user (the (quoted_status tweet)))) @ nl
        @ ''quote text: '' @ str (full_text tweet) @ nl
        @ ''origin text: '' @ str (full_text (the (quoted_status tweet)))
      else
        ''A new tweet'' @ nl
        @ ''sender: '' @ str (TweetUser.screen_name (user tweet)) @ nl
        @ ''text: '' @ str (full_text tweet))"

text \<open>
  \<^verbatim>\<open>get_quote\<close> follows \<^verbatim>\<open>retweeted_status\<close> as long as there is one. The recursion is on
  the structure of the tweet.
\<close>

fun get_quote :: "Tweet \<Rightarrow> json \<times> json" where
  "get_quote (Tweet _ _ _ _ _ _ _ _ _ _ _ _ quoted_st _ _ _ _ _ _ _ retweeted_st) =
     (case retweeted_st of
        Some original \<Rightarrow> get_quote original
      | None \<Rightarrow>
          (case quoted_st of
             None \<Rightarrow> (JNull, JNull)
           | Some q \<Rightarrow> (TweetUser.screen_name (user q), full_text q)))"

text \<open>
  The table: \<^verbatim>\<open>pd.DataFrame\<close> receives one list of eight cells per tweet and the names of
  the columns; the model keeps both. A cell is a Python value.
\<close>

definition tweet_row :: "Tweet \<Rightarrow> json list" where
  "tweet_row tweet =
     [ created_at tweet,
       TweetUser.screen_name (user tweet),
       full_text tweet,
       (if retweeted_status tweet \<noteq> None then JBool True else JBool False),
       (if \<not> (retweeted_status tweet \<noteq> None) then JNull
        else TweetUser.screen_name (user (the (retweeted_status tweet)))),
       (if truthy (fst (get_quote tweet)) then JBool True else JNull),
       fst (get_quote tweet),
       snd (get_quote tweet) ]"

definition df_columns :: "string list" where
  "df_columns =
     [''create time'', ''sender'', ''text'', ''is_retweet'', ''retweet_sender'',
      ''is_quote'', ''quoted_tweet_sender'', ''quoted_tweet_text'']"

record DataFrame =
  columns :: "string list"
  rows :: "json list list"

definition tweets_to_df :: "Tweet list \<Rightarrow> DataFrame" where
  "tweets_to_df tweets = \<lparr>columns = df_columns, rows = map tweet_row tweets\<rparr>"

text \<open>The cells of a column of the table, one per row, found by the column's name.\<close>

fun index_of :: "string \<Rightarrow> string list \<Rightarrow> nat" where
  "index_of c [] = 0"
| "index_of c (x # xs) = (if x = c then 0 else Suc (index_of c xs))"

definition column :: "DataFrame \<Rightarrow> string \<Rightarrow> json list" where
  "column df c = map (\<lambda>row. row ! index_of c (columns df)) (rows df)"

section \<open>Example values\<close>

text \<open>
  A user and a tweet with given handle, text and nested tweets, and a formatter that
  prints a string as it is, for the concrete instances below.
\<close>

definition example_user :: "string \<Rightarrow> TweetUser" where
  "example_user handle =
     TweetUser (JInt 7) (JStr handle) (JStr handle) JNull JNull JNull (JBool False)
       (JBool False) (JInt 0) (JInt 0) (JInt 0) (JInt 0) (JInt 1)
       (JStr ''Mon Nov 29 21:18:15 +0000 2010'') JNull (JStr ''https://example.org/a.png'')
       (JBool True) (JBool True) (JList [])"

definition example_tweet :: "string \<Rightarrow> string \<Rightarrow> Tweet option \<Rightarrow> Tweet option \<Rightarrow> Tweet" where
  "example_tweet handle txt quoted_st retweeted_st =
     Tweet (JStr ''Wed Oct 10 20:19:24 +0000 2018'') (JInt 1) (JStr txt) (JStr ''web'')
       JNull JNull JNull (example_user handle) JNull JNull (JBool (quoted_st \<noteq> None)) JNull
       quoted_st (JInt 0) (JInt 0) (Entities [] [] [] []) (JBool False) (JBool False) JNull
       (JStr ''en'') retweeted_st"

definition fmt :: "json \<Rightarrow> string" where
  "fmt v = (case v of JStr s \<Rightarrow> s | _ \<Rightarrow> ''?'')"

section \<open>verify_authentication\<close>

text \<open>
  Claim C8. \<^verbatim>\<open>verify_authentication\<close> always returns a boolean and never propagates an
  error: it returns \<^verbatim>\<open>True\<close> exactly when the credential check returns a truthy identity
  record, and \<^verbatim>\<open>False\<close> in every other case, that is when the check raises any exception
  or returns a falsy value. The function of the model is total with result type
  \<open>bool\<close>, and its argument ranges over every outcome of the external call.
\<close>

theorem verify_authentication_bool:
  "(verify_authentication outcome = True
      \<longleftrightarrow> (\<exists>identity. outcome = Inr identity \<and> truthy identity))
   \<and> (verify_authentication outcome = False
      \<longleftrightarrow> (\<exists>e. outcome = Inl e) \<or> (\<exists>identity. outcome = Inr identity \<and> \<not> truthy identity))"
proof (cases outcome)
  case (Inl e)
  then show ?thesis by (simp add: verify_authentication_def)
next
  case (Inr identity)
  then show ?thesis by (simp add: verify_authentication_def)
qed

theorem verify_authentication_bool_witness:
  "verify_authentication (Inr (JObj [(''screen_name'', JStr ''alice'')])) = True
   \<and> verify_authentication (Inl (ApiError ''401'')) = False
   \<and> verify_authentication (Inr (JBool False)) = False"
  using verify_authentication_bool [of "Inr (JObj [(''screen_name'', JStr ''alice'')])"]
    verify_authentication_bool [of "Inl (ApiError ''401'')"]
    verify_authentication_bool [of "Inr (JBool False)"]
  by simp

section \<open>get_quote\<close>

text \<open>
  The levels \<^verbatim>\<open>get_quote\<close> goes through: the tweet, the tweet it reshares, and so on.
\<close>

fun retweet_chain :: "Tweet \<Rightarrow> Tweet list" where
  "retweet_chain (Tweet a1 a2 a3 a4 a5 a6 a7 a8 a9 a10 a11 a12 quoted_st a14 a15 a16 a17 a18
       a19 a20 retweeted_st) =
     Tweet a1 a2 a3 a4 a5 a6 a7 a8 a9 a10 a11 a12 quoted_st a14 a15 a16 a17 a18 a19 a20
       retweeted_st
     # (case retweeted_st of None \<Rightarrow> [] | Some original \<Rightarrow> retweet_chain original)"

lemma get_quote_eq:
  "get_quote t =
     (case retweeted_status t of
        Some original \<Rightarrow> get_quote original
      | None \<Rightarrow>
          (case quoted_status t of
             None \<Rightarrow> (JNull, JNull)
           | Some q \<Rightarrow> (TweetUser.screen_name (user q), full_text q)))"
  by (cases t) (simp split: option.splits)

lemma get_quote_no_quote:
  "\<forall>x \<in> set (retweet_chain t). quoted_status x = None \<Longrightarrow> get_quote t = (JNull, JNull)"
proof (induction t rule: get_quote.induct)
  case (1 a1 a2 a3 a4 a5 a6 a7 a8 a9 a10 a11 a12 quoted_st a14 a15 a16 a17 a18 a19 a20 retweeted_st)
  show ?case
  proof (cases retweeted_st)
    case None
    with 1 show ?thesis by simp
  next
    case (Some original)
    with 1 show ?thesis by simp
  qed
qed

text \<open>
  Claim C6. \<^verbatim>\<open>get_quote\<close> recurses into \<^verbatim>\<open>retweeted_status\<close> first when it is present (the
  result is the result for the reshared tweet, whatever the tweet's own
  \<^verbatim>\<open>quoted_status\<close>), otherwise it inspects the tweet's own \<^verbatim>\<open>quoted_status\<close> and returns
  the quoted author's handle and the quoted text; it returns \<^verbatim>\<open>(None, None)\<close> when no
  level of the chain has a quote; on a plain reshare of a quote it returns the handle
  and text of the tweet quoted by the original.
\<close>

theorem get_quote_chain:
  "(retweeted_status t = Some original \<longrightarrow> get_quote t = get_quote original)
   \<and> (retweeted_status t = None \<and> quoted_status t = Some q \<longrightarrow>
        get_quote t = (TweetUser.screen_name (user q), full_text q))
   \<and> ((\<forall>x \<in> set (retweet_chain t). quoted_status x = None) \<longrightarrow> get_quote t = (JNull, JNull))
   \<and> (retweeted_status t = Some original \<and> retweeted_status original = None
        \<and> quoted_status original = Some q \<longrightarrow>
        get_quote t = (TweetUser.screen_name (user q), full_text q))"
proof (intro conjI impI)
  assume "retweeted_status t = Some original"
  then show "get_quote t = get_quote original"
    by (subst get_quote_eq) simp
next
  assume "retweeted_status t = None \<and> quoted_status t = Some q"
  then show "get_quote t = (TweetUser.screen_name (user q), full_text q)"
    by (subst get_quote_eq) simp
next
  assume "\<forall>x \<in> set (retweet_chain t). quoted_status x = None"
  then show "get_quote t = (JNull, JNull)"
    by (rule get_quote_no_quote)
next
  assume a: "retweeted_status t = Some original \<and> retweeted_status original = None
        \<and> quoted_status original = Some q"
  then have "get_quote t = get_quote original"
    by (subst get_quote_eq) simp
  also from a have "\<dots> = (TweetUser.screen_name (user q), full_text q)"
    by (subst get_quote_eq) simp
  finally show "get_quote t = (TweetUser.screen_name (user q), full_text q)" .
qed

text \<open>
  Carol reshares Bob's tweet, which quotes Alice; Carol's own \<^verbatim>\<open>quoted_status\<close> holds a
  tweet of Dave, which the result does not show. A plain tweet gives \<^verbatim>\<open>(None, None)\<close>.
\<close>

theorem get_quote_chain_witness:
  "get_quote
     (example_tweet ''carol'' ''RT'' (Some (example_tweet ''dave'' ''other'' None None))
        (Some (example_tweet ''bob'' ''look''
           (Some (example_tweet ''alice'' ''hello'' None None)) None)))
     = (JStr ''alice'', JStr ''hello'')
   \<and> get_quote (example_tweet ''bob'' ''look''
        (Some (example_tweet ''alice'' ''hello'' None None)) None)
     = (JStr ''alice'', JStr ''hello'')
   \<and> get_quote (example_tweet ''alice'' ''hello'' None None) = (JNull, JNull)"
  using
    get_quote_chain [of
      "example_tweet ''carol'' ''RT'' (Some (example_tweet ''dave'' ''other'' None None))
        (Some (example_tweet ''bob'' ''look''
           (Some (example_tweet ''alice'' ''hello'' None None)) None))"
      "example_tweet ''bob'' ''look'' (Some (example_tweet ''alice'' ''hello'' None None)) None"
      "example_tweet ''alice'' ''hello'' None None"]
    get_quote_chain [of
      "example_tweet ''bob'' ''look'' (Some (example_tweet ''alice'' ''hello'' None None)) None"
      "example_tweet ''alice'' ''hello'' None None"
      "example_tweet ''alice'' ''hello'' None None"]
    get_quote_chain [of "example_tweet ''alice'' ''hello'' None None"
      "example_tweet ''alice'' ''hello'' None None"
      "example_tweet ''alice'' ''hello'' None None"]
  by (simp add: example_tweet_def example_user_def)

section \<open>pretty_print\<close>

text \<open>
  The classification of the spec: a reshare whose original has no quote, a reshare
  whose original carries a quote, a direct quote that is not a reshare, any other post.
  It is a function, so every tweet is in exactly one class.
\<close>

datatype branch = Reshare_without_quote | Reshare_with_quote | Direct_quote | Plain_post

definition classify :: "Tweet \<Rightarrow> branch" where
  "classify t =
     (case retweeted_status t of
        Some original \<Rightarrow>
          (case quoted_status original of
             None \<Rightarrow> Reshare_without_quote
           | Some q \<Rightarrow> Reshare_with_quote)
      | None \<Rightarrow>
          (case quoted_status t of
             Some q \<Rightarrow> Direct_quote
           | None \<Rightarrow> Plain_post))"

text \<open>
  Claim C7. \<^verbatim>\<open>pretty_print\<close> takes exactly one of its four branches, the one of the
  tweet's class: (a) for a reshare whose original has no quote, the sender, the original
  author and the original text; (b) for a reshare whose original carries a quote, also
  the quoted author and the quoted text; (c) for a tweet that is not a reshare and has a
  quoted tweet, the sender, the quoted author, the tweet's own text and the quoted text;
  (d) for any other tweet, the sender and the text.
\<close>

theorem pretty_print_branches:
  "(classify t = Reshare_without_quote \<longrightarrow>
      (\<exists>original. retweeted_status t = Some original \<and> quoted_status original = None \<and>
         pretty_print str t =
           ''A new retweet'' @ nl
           @ ''sender: '' @ str (TweetUser.screen_name (user t)) @ nl
           @ ''retweet from: '' @ str (TweetUser.screen_name (user original)) @ nl
           @ ''text: '' @ str (full_text original)))
   \<and> (classify t = Reshare_with_quote \<longrightarrow>
      (\<exists>original q. retweeted_status t = Some original \<and> quoted_status original = Some q \<and>
         pretty_print str t =
           ''A new retweet'' @ nl
           @ ''sender: '' @ str (TweetUser.screen_name (user t)) @ nl
           @ ''retweet from: '' @ str (TweetUser.screen_name (user original)) @ nl
           @ ''quoted from: '' @ str (TweetUser.screen_name (user q)) @ nl
           @ ''text: '' @ str (full_text original) @ nl
           @ ''origin text: '' @ str (full_text q)))
   \<and> (classify t = Direct_quote \<longrightarrow>
      (\<exists>q. retweeted_status t = None \<and> quoted_status t = Some q \<and>
         pretty_print str t =
           ''A new quoted tweet'' @ nl
           @ ''sender: '' @ str (TweetUser.screen_name (user t)) @ nl
           @ ''quoted from: '' @ str (TweetUser.screen_name (user q)) @ nl
           @ ''quote text: '' @ str (full_text t) @ nl
           @ ''origin text: '' @ str (full_text q)))
   \<and> (classify t = Plain_post \<longrightarrow>
      retweeted_status t = None \<and> quoted_status t = None \<and>
      pretty_print str t =
        ''A new tweet'' @ nl
        @ ''sender: '' @ str (TweetUser.screen_name (user t)) @ nl
        @ ''text: '' @ str (full_text t))"
proof (cases "retweeted_status t")
  case None
  show ?thesis
  proof (cases "quoted_status t")
    case None
    with \<open>retweeted_status t = None\<close> show ?thesis
      by (simp add: classify_def pretty_print_def)
  next
    case (Some q)
    with \<open>retweeted_status t = None\<close> show ?thesis
      by (simp add: classify_def pretty_print_def)
  qed
next
  case (Some original)
  show ?thesis
  proof (cases "quoted_status original")
    case None
    with Some show ?thesis
      by (simp add: classify_def pretty_print_def)
  next
    case (Some q)
    with \<open>retweeted_status t = Some original\<close> show ?thesis
      by (simp add: classify_def pretty_print_def)
  qed
qed

theorem pretty_print_branches_witness:
  "pretty_print fmt (example_tweet ''carol'' ''hi'' None
       (Some (example_tweet ''bob'' ''hello'' None None))) =
     ''A new retweet'' @ nl @ ''sender: carol'' @ nl @ ''retweet from: bob'' @ nl
     @ ''text: hello''
   \<and> pretty_print fmt (example_tweet ''carol'' ''hi'' None
       (Some (example_tweet ''bob'' ''look''
          (Some (example_tweet ''alice'' ''hello'' None None)) None))) =
     ''A new retweet'' @ nl @ ''sender: carol'' @ nl @ ''retweet from: bob'' @ nl
     @ ''quoted from: alice'' @ nl @ ''text: look'' @ nl @ ''origin text: hello''
   \<and> pretty_print fmt (example_tweet ''bob'' ''look''
       (Some (example_tweet ''alice'' ''hello'' None None)) None) =
     ''A new quoted tweet'' @ nl @ ''sender: bob'' @ nl @ ''quoted from: alice'' @ nl
     @ ''quote text: look'' @ nl @ ''origin text: hello''
   \<and> pretty_print fmt (example_tweet ''carol'' ''hi'' None None) =
     ''A new tweet'' @ nl @ ''sender: carol'' @ nl @ ''text: hi''"
  using
    pretty_print_branches [of "example_tweet ''carol'' ''hi'' None
       (Some (example_tweet ''bob'' ''hello'' None None))" fmt]
    pretty_print_branches [of "example_tweet ''carol'' ''hi'' None
       (Some (example_tweet ''bob'' ''look''
          (Some (example_tweet ''alice'' ''hello'' None None)) None))" fmt]
    pretty_print_branches [of "example_tweet ''bob'' ''look''
       (Some (example_tweet ''alice'' ''hello'' None None)) None" fmt]
    pretty_print_branches [of "example_tweet ''carol'' ''hi'' None None" fmt]
  by (simp add: classify_def example_tweet_def example_user_def fmt_def)

section \<open>tweets_to_df\<close>

text \<open>
  Claim C10. In the table of \<^verbatim>\<open>tweets_to_df\<close> the cell of the column \<^verbatim>\<open>is_quote\<close> is
  \<^verbatim>\<open>True\<close> exactly when the handle resolved by \<^verbatim>\<open>get_quote\<close> is truthy, and \<^verbatim>\<open>None\<close>
  otherwise; it is never \<^verbatim>\<open>False\<close>. The cell of the column \<^verbatim>\<open>is_retweet\<close> is \<^verbatim>\<open>True\<close> for
  a reshare and \<^verbatim>\<open>False\<close> otherwise. For a plain post, without reshare and quote, the
  two columns hold \<^verbatim>\<open>None\<close> and \<^verbatim>\<open>False\<close>: the negative case is encoded differently.
\<close>

theorem is_quote_is_retweet_columns:
  "column (tweets_to_df tweets) ''is_quote'' =
     map (\<lambda>t. if truthy (fst (get_quote t)) then JBool True else JNull) tweets
   \<and> JBool False \<notin> set (column (tweets_to_df tweets) ''is_quote'')
   \<and> column (tweets_to_df tweets) ''is_retweet'' =
     map (\<lambda>t. JBool (retweeted_status t \<noteq> None)) tweets
   \<and> JNull \<notin> set (column (tweets_to_df tweets) ''is_retweet'')
   \<and> (retweeted_status t = None \<and> quoted_status t = None \<longrightarrow>
        column (tweets_to_df [t]) ''is_quote'' = [JNull]
        \<and> column (tweets_to_df [t]) ''is_retweet'' = [JBool False])"
proof -
  have q: "column (tweets_to_df ts) ''is_quote'' =
     map (\<lambda>t. if truthy (fst (get_quote t)) then JBool True else JNull) ts" for ts
    by (simp add: column_def tweets_to_df_def df_columns_def tweet_row_def)
  have r: "column (tweets_to_df ts) ''is_retweet'' =
     map (\<lambda>t. JBool (retweeted_status t \<noteq> None)) ts" for ts
    by (simp add: column_def tweets_to_df_def df_columns_def tweet_row_def)
  have "JBool False \<notin> set (column (tweets_to_df tweets) ''is_quote'')"
    unfolding q by auto
  moreover have "JNull \<notin> set (column (tweets_to_df tweets) ''is_retweet'')"
    unfolding r by auto
  moreover have "column (tweets_to_df [t]) ''is_quote'' = [JNull]
        \<and> column (tweets_to_df [t]) ''is_retweet'' = [JBool False]"
    if "retweeted_status t = None \<and> quoted_status t = None"
  proof -
    from that have "get_quote t = (JNull, JNull)"
      by (subst get_quote_eq) simp
    with that show ?thesis
      unfolding q r by simp
  qed
  ultimately show ?thesis
    using q r by blast
qed

theorem is_quote_is_retweet_columns_witness:
  "column (tweets_to_df
       [example_tweet ''alice'' ''hello'' None None,
        example_tweet ''bob'' ''look''
          (Some (example_tweet ''alice'' ''hello'' None None)) None,
        example_tweet ''carol'' ''hi'' None
          (Some (example_tweet ''alice'' ''hello'' None None))]) ''is_quote''
     = [JNull, JBool True, JNull]
   \<and> column (tweets_to_df
       [example_tweet ''alice'' ''hello'' None None,
        example_tweet ''bob'' ''look''
          (Some (example_tweet ''alice'' ''hello'' None None)) None,
        example_tweet ''carol'' ''hi'' None
          (Some (example_tweet ''alice'' ''hello'' None None))]) ''is_retweet''
     = [JBool False, JBool False, JBool True]
   \<and> column (tweets_to_df [example_tweet ''alice'' ''hello'' None None]) ''is_quote''
     = [JNull]
   \<and> column (tweets_to_df [example_tweet ''alice'' ''hello'' None None]) ''is_retweet''
     = [JBool False]"
  using is_quote_is_retweet_columns [of
      "[example_tweet ''alice'' ''hello'' None None,
        example_tweet ''bob'' ''look''
          (Some (example_tweet ''alice'' ''hello'' None None)) None,
        example_tweet ''carol'' ''hi'' None
          (Some (example_tweet ''alice'' ''hello'' None None))]"
      "example_tweet ''alice'' ''hello'' None None"]
  by (simp add: example_tweet_def example_user_def)

section \<open>collect_tweets\<close>

text \<open>
  The items of a response (none when the method raises), and the number of items the
  first \<open>i\<close> responses delivered: \<open>count - received method i\<close> is the remaining count
  \<open>cnt\<close> when call \<open>i\<close> (from 0) is about to be made.
\<close>

fun items :: "response \<Rightarrow> Status list" where
  "items (Page p) = p"
| "items (Raises e) = []"

definition received :: "response list \<Rightarrow> nat \<Rightarrow> int" where
  "received method i = int (length (concat (map items (take i method))))"

text \<open>The calls of the loop, from its state at the head of an iteration.\<close>

fun loop_calls :: "response list \<Rightarrow> int \<Rightarrow> int option \<Rightarrow> call list" where
  "loop_calls [] cnt oldest_id = []"
| "loop_calls (r # rs) cnt oldest_id =
     (if cnt \<noteq> 0 then
        (min MAX_COUNT cnt, map_option (\<lambda>oldest. oldest - 1) oldest_id)
        # (case r of
             Raises e \<Rightarrow> []
           | Page p \<Rightarrow>
               if p = [] then []
               else loop_calls rs (cnt - int (length p)) (Some (Status.id' (last p))))
      else [])"

lemma collect_loop_calls:
  "collect_loop rs cnt oldest_id result calls = Some (calls', res) \<Longrightarrow>
   calls' = calls @ loop_calls rs cnt oldest_id"
proof (induction rs arbitrary: cnt oldest_id result calls)
  case Nil
  then show ?case by (simp split: if_splits)
next
  case (Cons r rs)
  show ?case
  proof (cases "cnt = 0")
    case True
    with Cons.prems show ?thesis by simp
  next
    case False
    show ?thesis
    proof (cases r)
      case (Raises e)
      with False Cons.prems show ?thesis
        by (cases oldest_id) auto
    next
      case (Page p)
      show ?thesis
      proof (cases "p = []")
        case True
        with Page False Cons.prems show ?thesis
          by (cases oldest_id) auto
      next
        case nonempty: False
        with Page False Cons.prems Cons.IH show ?thesis
          by (cases oldest_id) (force simp: Let_def)+
      qed
    qed
  qed
qed

lemma collect_loop_result:
  "collect_loop rs cnt oldest_id result calls = Some (calls', Inr res) \<Longrightarrow>
   res = result @ concat (map items (take (length (loop_calls rs cnt oldest_id)) rs))"
proof (induction rs arbitrary: cnt oldest_id result calls)
  case Nil
  then show ?case by (simp split: if_splits)
next
  case (Cons r rs)
  show ?case
  proof (cases "cnt = 0")
    case True
    with Cons.prems show ?thesis by simp
  next
    case False
    show ?thesis
    proof (cases r)
      case (Raises e)
      with False Cons.prems show ?thesis
        by (cases oldest_id) auto
    next
      case (Page p)
      show ?thesis
      proof (cases "p = []")
        case True
        with Page False Cons.prems show ?thesis
          by (cases oldest_id) auto
      next
        case nonempty: False
        with Page False Cons.prems Cons.IH show ?thesis
          by (cases oldest_id) (force simp: Let_def)+
      qed
    qed
  qed
qed

lemma length_loop_calls: "length (loop_calls rs cnt oldest_id) \<le> length rs"
  by (induction rs arbitrary: cnt oldest_id) (auto split: response.splits)

lemma loop_calls_count:
  "i < length (loop_calls rs cnt oldest_id) \<Longrightarrow>
   fst (loop_calls rs cnt oldest_id ! i) = min MAX_COUNT (cnt - received rs i)
   \<and> cnt - received rs i \<noteq> 0"
proof (induction rs arbitrary: cnt oldest_id i)
  case Nil
  then show ?case by simp
next
  case (Cons r rs)
  show ?case
  proof (cases i)
    case 0
    with Cons.prems show ?thesis by (auto simp: received_def split: if_splits)
  next
    case (Suc j)
    with Cons.prems obtain p where p: "r = Page p" "p \<noteq> []" "cnt \<noteq> 0"
      and j: "j < length (loop_calls rs (cnt - int (length p)) (Some (Status.id' (last p))))"
      by (auto split: if_splits response.splits)
    from Cons.IH [OF j] p Suc show ?thesis
      by (simp add: received_def algebra_simps)
  qed
qed

lemma loop_calls_cursor:
  "Suc i < length (loop_calls rs cnt oldest_id) \<Longrightarrow>
   \<exists>p. rs ! i = Page p \<and> p \<noteq> []
     \<and> snd (loop_calls rs cnt oldest_id ! Suc i) = Some (Status.id' (last p) - 1)"
proof (induction rs arbitrary: cnt oldest_id i)
  case Nil
  then show ?case by simp
next
  case (Cons r rs)
  from Cons.prems obtain p where p: "r = Page p" "p \<noteq> []" "cnt \<noteq> 0"
    and len: "i < length (loop_calls rs (cnt - int (length p)) (Some (Status.id' (last p))))"
    by (auto split: if_splits response.splits)
  show ?case
  proof (cases i)
    case 0
    with len p show ?thesis
      by (cases rs) (auto split: if_splits)
  next
    case (Suc j)
    with len Cons.IH [of j "cnt - int (length p)" "Some (Status.id' (last p))"] p
    show ?thesis by simp
  qed
qed

lemma loop_calls_first:
  "loop_calls rs cnt oldest_id \<noteq> [] \<Longrightarrow>
   snd (hd (loop_calls rs cnt oldest_id)) = map_option (\<lambda>oldest. oldest - 1) oldest_id"
  by (cases rs) (auto split: if_splits)

lemma collect_loop_stop:
  "collect_loop rs cnt oldest_id result calls = Some (calls', Inr res) \<Longrightarrow>
   n = length (loop_calls rs cnt oldest_id) \<Longrightarrow>
   cnt - received rs n = 0 \<or> (0 < n \<and> rs ! (n - 1) = Page [])"
proof (induction rs arbitrary: cnt oldest_id result calls n)
  case Nil
  then show ?case by (simp add: received_def split: if_splits)
next
  case (Cons r rs)
  show ?case
  proof (cases "cnt = 0")
    case True
    with Cons.prems show ?thesis by (simp add: received_def)
  next
    case False
    show ?thesis
    proof (cases r)
      case (Raises e)
      with False Cons.prems show ?thesis
        by (cases oldest_id) auto
    next
      case (Page p)
      show ?thesis
      proof (cases "p = []")
        case True
        with Page False Cons.prems show ?thesis by simp
      next
        case nonempty: False
        let ?m = "length (loop_calls rs (cnt - int (length p)) (Some (Status.id' (last p))))"
        from Page False nonempty Cons.prems(1)
        have run: "collect_loop rs (cnt - int (length p)) (Some (Status.id' (last p)))
            (result @ p)
            (calls @ [(min MAX_COUNT cnt, map_option (\<lambda>oldest. oldest - 1) oldest_id)])
          = Some (calls', Inr res)"
          by (cases oldest_id) (simp_all add: Let_def)
        from Cons.IH [OF run refl]
        have "cnt - int (length p) - received rs ?m = 0 \<or> (0 < ?m \<and> rs ! (?m - 1) = Page [])" .
        moreover from Page False nonempty Cons.prems(2) have n: "n = Suc ?m" by simp
        ultimately show ?thesis using Page
          by (cases ?m) (auto simp: received_def)
      qed
    qed
  qed
qed


lemma collect_loop_zero:
  "collect_loop rs 0 oldest_id result calls = Some (calls, Inr result)"
  by (cases rs) simp_all

lemma received_Cons_Suc:
  "received (r # rs) (Suc i) = int (length (items r)) + received rs i"
  by (simp add: received_def)

lemma received_0: "received rs 0 = 0"
  by (simp add: received_def)

lemma collect_loop_returns:
  "0 \<le> cnt \<Longrightarrow>
   \<forall>i<length rs. 0 < cnt - received rs i \<longrightarrow>
     (\<exists>p. rs ! i = Page p \<and> int (length p) \<le> min MAX_COUNT (cnt - received rs i)) \<Longrightarrow>
   Page [] \<in> set rs \<or> cnt \<le> received rs (length rs) \<Longrightarrow>
   \<exists>calls' res. collect_loop rs cnt oldest_id result calls = Some (calls', Inr res)"
proof (induction rs arbitrary: cnt oldest_id result calls)
  case Nil
  then show ?case by (simp add: received_def)
next
  case (Cons r rs)
  show ?case
  proof (cases "cnt = 0")
    case True
    then show ?thesis by simp
  next
    case False
    with Cons.prems(1) have pos: "0 < cnt" by simp
    with Cons.prems(2) [rule_format, of 0] obtain p where
      p: "r = Page p" "int (length p) \<le> min MAX_COUNT cnt"
      by (auto simp: received_0)
    show ?thesis
    proof (cases "p = []")
      case True
      with p False show ?thesis by (cases oldest_id) simp_all
    next
      case nonempty: False
      let ?cnt = "cnt - int (length p)"
      from p have 1: "0 \<le> ?cnt" by simp
      have 2: "\<forall>i<length rs. 0 < ?cnt - received rs i \<longrightarrow>
          (\<exists>q. rs ! i = Page q \<and> int (length q) \<le> min MAX_COUNT (?cnt - received rs i))"
      proof (intro allI impI)
        fix i assume "i < length rs" "0 < ?cnt - received rs i"
        with Cons.prems(2) [rule_format, of "Suc i"] p
        show "\<exists>q. rs ! i = Page q \<and> int (length q) \<le> min MAX_COUNT (?cnt - received rs i)"
          by (simp add: received_Cons_Suc algebra_simps)
      qed
      from Cons.prems(3) p nonempty
      have 3: "Page [] \<in> set rs \<or> ?cnt \<le> received rs (length rs)"
        by (auto simp: received_Cons_Suc)
      from Cons.IH [OF 1 2 3, of "Some (Status.id' (last p))" "result @ p"
          "calls @ [(min MAX_COUNT cnt, map_option (\<lambda>oldest. oldest - 1) oldest_id)]"]
      show ?thesis using p False nonempty
        by (cases oldest_id) (simp_all add: Let_def)
    qed
  qed
qed

lemma collect_loop_ends:
  "\<exists>r\<in>set rs. items r = [] \<Longrightarrow>
   \<exists>calls' outcome. collect_loop rs cnt oldest_id result calls = Some (calls', outcome)"
proof (induction rs arbitrary: cnt oldest_id result calls)
  case Nil
  then show ?case by simp
next
  case (Cons r rs)
  show ?case
  proof (cases r)
    case (Raises e)
    then show ?thesis by (cases oldest_id) simp_all
  next
    case (Page p)
    show ?thesis
    proof (cases "p = []")
      case True
      with Page show ?thesis by (cases oldest_id) simp_all
    next
      case False
      with Page Cons.prems have "\<exists>r\<in>set rs. items r = []" by auto
      from Cons.IH [OF this] Page False show ?thesis
        by (cases oldest_id) (simp_all add: Let_def)
    qed
  qed
qed

lemma collect_loop_negative:
  "cnt < 0 \<Longrightarrow> \<forall>r\<in>set rs. items r \<noteq> [] \<Longrightarrow>
   collect_loop rs cnt oldest_id result calls = None"
proof (induction rs arbitrary: cnt oldest_id result calls)
  case Nil
  then show ?case by simp
next
  case (Cons r rs)
  from Cons.prems obtain p where p: "r = Page p" "p \<noteq> []"
    by (cases r) auto
  from Cons.prems(1) have "cnt - int (length p) < 0" by simp
  from Cons.IH [OF this] Cons.prems p show ?case
    by (cases oldest_id) (simp_all add: Let_def)
qed

lemma loop_calls_received:
  assumes "0 \<le> cnt"
    and "\<forall>i<length rs. 0 < cnt - received rs i \<longrightarrow>
     (\<exists>p. rs ! i = Page p \<and> int (length p) \<le> min MAX_COUNT (cnt - received rs i))"
  shows "i \<le> length (loop_calls rs cnt oldest_id) \<Longrightarrow> received rs i \<le> cnt"
proof (induction i)
  case 0
  from assms(1) show ?case by (simp add: received_0)
next
  case (Suc i)
  then have i: "i < length (loop_calls rs cnt oldest_id)" and ih: "received rs i \<le> cnt"
    by simp_all
  from i length_loop_calls [of rs cnt oldest_id] have len: "i < length rs" by simp
  from loop_calls_count [OF i] ih have "0 < cnt - received rs i" by simp
  with assms(2) len obtain p where
    p: "rs ! i = Page p" "int (length p) \<le> min MAX_COUNT (cnt - received rs i)"
    by blast
  from len have "received rs (Suc i) = received rs i + int (length (items (rs ! i)))"
    by (simp add: received_def take_Suc_conv_app_nth)
  with p show ?case by simp
qed

text \<open>Statuses for the concrete runs.\<close>

definition example_status :: "int \<Rightarrow> Status" where
  "example_status n = Status n JNull"

text \<open>
  The loop does not stop as soon as the requested total is satisfied, for every count and
  every sequence of pages: \<^verbatim>\<open>while cnt:\<close> tests the remaining count for being zero. With
  count 1 and a first page of 2 items the total is satisfied after the first call, and
  the loop makes a second call, asking for \<open>min(200, -1) = -1\<close> items; with count \<open>-5\<close> it
  makes a call although nothing is asked for.
\<close>

theorem collect_tweets_paging_counterexample:
  "collect_tweets [Page [example_status 9, example_status 8], Page []] 1
     = Some ([(1, None), (- 1, Some 7)], Inr [example_status 9, example_status 8])
   \<and> collect_tweets [Page []] (- 5) = Some ([(- 5, None)], Inr [])"
  by (simp add: collect_tweets_def MAX_COUNT_def example_status_def)

text \<open>
  Claim C2, amended. For every requested count and every sequence of responses of the
  method, the remaining count is the requested count minus the number of items received
  so far. In a run that returns, each call asks for \<open>min(200, remaining count)\<close> items, no
  call is made with remaining count zero, no call follows an empty page, after the last
  call the remaining count is zero or the last page is empty, and the result is the
  items of the pages received, in order. A run ends (by returning or by the exception of
  the method) whenever some response is an empty page or an exception. When the count is
  not negative, every page asked for while the remaining count is positive has at most
  the number of items asked for, and the responses have an empty page or deliver the
  count, the run returns, the total is not yet reached before any of its calls, and
  after the last call the total is reached exactly or the last page is empty: under
  these conditions the loop stops as soon as the requested total is satisfied or a page
  has no items, whichever comes first. When the first page has items, and more of them
  than a count that is not zero, the remaining count is negative from then on, and the
  loop goes on as long as the pages have items. With count 450 and pages
  of 200, 200 and 50 items the loop makes exactly 3 calls; when the second page is empty
  it makes 2 calls, fewer than the 3 that 450 items take.
\<close>

theorem collect_tweets_paging:
  "(collect_tweets method count = Some (calls, Inr result) \<longrightarrow>
      length calls \<le> length method
      \<and> (\<forall>i. i < length calls \<longrightarrow>
            fst (calls ! i) = min 200 (count - received method i)
            \<and> count - received method i \<noteq> 0)
      \<and> (\<forall>i. Suc i < length calls \<longrightarrow> items (method ! i) \<noteq> [])
      \<and> (count - received method (length calls) = 0
          \<or> (0 < length calls \<and> method ! (length calls - 1) = Page []))
      \<and> result = concat (map items (take (length calls) method))
      \<and> (0 \<le> count
           \<and> (\<forall>i. i < length calls \<longrightarrow> int (length (items (method ! i))) \<le> fst (calls ! i))
           \<longrightarrow> (\<forall>i. i \<le> length calls \<longrightarrow> received method i \<le> count)))
   \<and> ((\<exists>r\<in>set method. items r = []) \<longrightarrow>
        (\<exists>calls' outcome. collect_tweets method count = Some (calls', outcome)))
   \<and> (0 \<le> count
        \<and> (\<forall>i<length method. 0 < count - received method i \<longrightarrow>
              (\<exists>p. method ! i = Page p
                 \<and> int (length p) \<le> min 200 (count - received method i)))
        \<and> (Page [] \<in> set method \<or> count \<le> received method (length method))
      \<longrightarrow> (\<exists>calls' result'. collect_tweets method count = Some (calls', Inr result')
            \<and> (\<forall>i<length calls'. received method i < count)
            \<and> (received method (length calls') = count
                \<or> (0 < length calls' \<and> method ! (length calls' - 1) = Page []))))
   \<and> (p0 \<noteq> [] \<and> count \<noteq> 0 \<and> count < int (length p0) \<and> (\<forall>r\<in>set pages. items r \<noteq> [])
      \<longrightarrow> collect_tweets (Page p0 # pages) count = None)
   \<and> (length p1 = 200 \<and> length p2 = 200 \<and> length p3 = 50 \<longrightarrow>
        collect_tweets (Page p1 # Page p2 # Page p3 # rest) 450
          = Some ([(200, None), (200, Some (Status.id' (last p1) - 1)),
                   (50, Some (Status.id' (last p2) - 1))],
                  Inr (p1 @ p2 @ p3)))
   \<and> (length p1 = 200 \<longrightarrow>
        collect_tweets (Page p1 # Page [] # rest) 450
          = Some ([(200, None), (200, Some (Status.id' (last p1) - 1))], Inr p1))"
proof -
  have general: "length calls \<le> length method
      \<and> (\<forall>i. i < length calls \<longrightarrow>
            fst (calls ! i) = min 200 (count - received method i)
            \<and> count - received method i \<noteq> 0)
      \<and> (\<forall>i. Suc i < length calls \<longrightarrow> items (method ! i) \<noteq> [])
      \<and> (count - received method (length calls) = 0
          \<or> (0 < length calls \<and> method ! (length calls - 1) = Page []))
      \<and> result = concat (map items (take (length calls) method))
      \<and> (0 \<le> count
           \<and> (\<forall>i. i < length calls \<longrightarrow> int (length (items (method ! i))) \<le> fst (calls ! i))
           \<longrightarrow> (\<forall>i. i \<le> length calls \<longrightarrow> received method i \<le> count))"
    if run: "collect_tweets method count = Some (calls, Inr result)"
  proof (intro conjI impI)
    from run have calls: "calls = loop_calls method count None"
      unfolding collect_tweets_def by (auto dest: collect_loop_calls)
    show len: "length calls \<le> length method"
      unfolding calls by (rule length_loop_calls)
    show "\<forall>i. i < length calls \<longrightarrow>
        fst (calls ! i) = min 200 (count - received method i)
        \<and> count - received method i \<noteq> 0"
      unfolding calls using loop_calls_count [of _ "method" count None]
      by (simp add: MAX_COUNT_def)
    show "\<forall>i. Suc i < length calls \<longrightarrow> items (method ! i) \<noteq> []"
      unfolding calls using loop_calls_cursor [of _ "method" count None] by fastforce
    show "count - received method (length calls) = 0
        \<or> (0 < length calls \<and> method ! (length calls - 1) = Page [])"
      using run collect_loop_stop [of "method" count None "[]" "[]" calls result "length calls"]
      unfolding collect_tweets_def calls by simp
    show "result = concat (map items (take (length calls) method))"
      using run collect_loop_result [of "method" count None "[]" "[]" calls result]
      unfolding collect_tweets_def calls by simp
    assume bounded: "0 \<le> count
      \<and> (\<forall>i. i < length calls \<longrightarrow> int (length (items (method ! i))) \<le> fst (calls ! i))"
    have req: "fst (calls ! i) = min 200 (count - received method i)" if "i < length calls" for i
      using that loop_calls_count [of i "method" count None] unfolding calls
      by (simp add: MAX_COUNT_def)
    have "i \<le> length calls \<Longrightarrow> received method i \<le> count" for i
    proof (induction i)
      case 0
      from bounded show ?case by (simp add: received_def)
    next
      case (Suc i)
      then have i: "i < length calls" and ih: "received method i \<le> count" by simp_all
      from i len have "received method (Suc i) = received method i + int (length (items (method ! i)))"
        by (simp add: received_def take_Suc_conv_app_nth)
      also from bounded i have "\<dots> \<le> received method i + fst (calls ! i)" by simp
      also from req [OF i] have "\<dots> \<le> count" by simp
      finally show ?case .
    qed
    then show "\<forall>i. i \<le> length calls \<longrightarrow> received method i \<le> count" by blast
  qed
  have ends: "\<exists>calls' outcome. collect_tweets method count = Some (calls', outcome)"
    if "\<exists>r\<in>set method. items r = []"
    unfolding collect_tweets_def using that by (rule collect_loop_ends)
  have returns: "\<exists>calls' result'. collect_tweets method count = Some (calls', Inr result')
            \<and> (\<forall>i<length calls'. received method i < count)
            \<and> (received method (length calls') = count
                \<or> (0 < length calls' \<and> method ! (length calls' - 1) = Page []))"
    if h: "0 \<le> count
        \<and> (\<forall>i<length method. 0 < count - received method i \<longrightarrow>
              (\<exists>p. method ! i = Page p
                 \<and> int (length p) \<le> min 200 (count - received method i)))
        \<and> (Page [] \<in> set method \<or> count \<le> received method (length method))"
  proof -
    from h have 1: "0 \<le> count"
      and 2: "\<forall>i<length method. 0 < count - received method i \<longrightarrow>
              (\<exists>p. method ! i = Page p
                 \<and> int (length p) \<le> min MAX_COUNT (count - received method i))"
      and 3: "Page [] \<in> set method \<or> count \<le> received method (length method)"
      by (simp_all add: MAX_COUNT_def)
    from collect_loop_returns [OF 1 2 3, of None "[]" "[]"] obtain calls' result' where
      run: "collect_loop method count None [] [] = Some (calls', Inr result')"
      by blast
    then have calls: "calls' = loop_calls method count None"
      by (auto dest: collect_loop_calls)
    have less: "received method i < count" if "i < length calls'" for i
    proof -
      from that have "received method i \<le> count"
        unfolding calls using loop_calls_received [OF 1 2, of i None] by simp
      moreover from that have "count - received method i \<noteq> 0"
        unfolding calls using loop_calls_count [of i "method" count None] by simp
      ultimately show ?thesis by simp
    qed
    from collect_loop_stop [OF run refl]
    have "received method (length calls') = count
        \<or> (0 < length calls' \<and> method ! (length calls' - 1) = Page [])"
      unfolding calls by auto
    with run less show ?thesis
      unfolding collect_tweets_def by blast
  qed
  have runs_on: "collect_tweets (Page p0 # pages) count = None"
    if "p0 \<noteq> [] \<and> count \<noteq> 0 \<and> count < int (length p0) \<and> (\<forall>r\<in>set pages. items r \<noteq> [])"
  proof -
    from that have "count - int (length p0) < 0" and "\<forall>r\<in>set pages. items r \<noteq> []"
      by simp_all
    from collect_loop_negative [OF this] that show ?thesis
      by (simp add: collect_tweets_def)
  qed
  have three: "collect_tweets (Page p1 # Page p2 # Page p3 # rest) 450
          = Some ([(200, None), (200, Some (Status.id' (last p1) - 1)),
                   (50, Some (Status.id' (last p2) - 1))],
                  Inr (p1 @ p2 @ p3))"
    if "length p1 = 200 \<and> length p2 = 200 \<and> length p3 = 50"
    using that by (simp add: collect_tweets_def MAX_COUNT_def collect_loop_zero)
  have two: "collect_tweets (Page p1 # Page [] # rest) 450
          = Some ([(200, None), (200, Some (Status.id' (last p1) - 1))], Inr p1)"
    if "length p1 = 200"
    using that by (simp add: collect_tweets_def MAX_COUNT_def)
  from general ends returns runs_on three two show ?thesis
    by blast
qed

theorem collect_tweets_paging_witness:
  "collect_tweets
     [Page (replicate 200 (example_status 900)), Page (replicate 200 (example_status 700)),
      Page (replicate 50 (example_status 500))] 450
     = Some ([(200, None), (200, Some 899), (50, Some 699)],
         Inr (replicate 200 (example_status 900) @ replicate 200 (example_status 700)
              @ replicate 50 (example_status 500)))
   \<and> collect_tweets
     [Page (replicate 200 (example_status 900)), Page [],
      Page (replicate 50 (example_status 500))] 450
     = Some ([(200, None), (200, Some 899)], Inr (replicate 200 (example_status 900)))
   \<and> received [Page (replicate 200 (example_status 900)), Page (replicate 200 (example_status 700)),
      Page (replicate 50 (example_status 500))] 3 = 450
   \<and> collect_tweets
     [Page [example_status 9, example_status 8], Page [example_status 7],
      Page [example_status 6]] 1 = None"
  using collect_tweets_paging [of
      "[Page (replicate 200 (example_status 900)), Page (replicate 200 (example_status 700)),
        Page (replicate 50 (example_status 500))]" 450
      "[(200, None), (200, Some 899), (50, Some 699)]"
      "replicate 200 (example_status 900) @ replicate 200 (example_status 700)
         @ replicate 50 (example_status 500)"
      "[example_status 9, example_status 8]"
      "[Page [example_status 7], Page [example_status 6]]"
      "replicate 200 (example_status 900)" "replicate 200 (example_status 700)"
      "replicate 50 (example_status 500)" "[]"]
    collect_tweets_paging [of "[]" 1 "[]" "[]"
      "[example_status 9, example_status 8]"
      "[Page [example_status 7], Page [example_status 6]]" "[]" "[]" "[]" "[]"]
  by (simp add: collect_tweets_def MAX_COUNT_def example_status_def received_def)

text \<open>
  Claim C3. In every run of \<^verbatim>\<open>collect_tweets\<close>, whether it ends by returning or by an
  exception of the method, the first call passes no \<^verbatim>\<open>max_id\<close>, and every later call
  follows a page with items and passes the \<^verbatim>\<open>id\<close> of the last item of that page minus 1
  as \<^verbatim>\<open>max_id\<close>.
\<close>

theorem collect_tweets_cursor:
  "collect_tweets method count = Some (calls, outcome) \<longrightarrow>
     (calls \<noteq> [] \<longrightarrow> snd (hd calls) = None)
     \<and> (\<forall>i. Suc i < length calls \<longrightarrow>
          (\<exists>p. method ! i = Page p \<and> p \<noteq> []
             \<and> snd (calls ! Suc i) = Some (Status.id' (last p) - 1)))"
proof (intro impI conjI)
  assume run: "collect_tweets method count = Some (calls, outcome)"
  then have calls: "calls = loop_calls method count None"
    unfolding collect_tweets_def by (auto dest: collect_loop_calls)
  show "snd (hd calls) = None" if "calls \<noteq> []"
    using that loop_calls_first [of "method" count None] unfolding calls by simp
  show "\<forall>i. Suc i < length calls \<longrightarrow>
      (\<exists>p. method ! i = Page p \<and> p \<noteq> []
         \<and> snd (calls ! Suc i) = Some (Status.id' (last p) - 1))"
    unfolding calls using loop_calls_cursor [of _ "method" count None] by blast
qed

theorem collect_tweets_cursor_witness:
  "collect_tweets
     [Page [example_status 30, example_status 20], Page [example_status 19, example_status 12],
      Page [example_status 11]] 5
     = Some ([(5, None), (3, Some 19), (1, Some 11)],
         Inr [example_status 30, example_status 20, example_status 19, example_status 12,
              example_status 11])
   \<and> snd ([(5, None), (3, Some 19), (1, Some (11::int))] ! 1) = Some (20 - 1)"
  using collect_tweets_cursor [of
      "[Page [example_status 30, example_status 20],
        Page [example_status 19, example_status 12], Page [example_status 11]]" 5
      "[(5, None), (3, Some 19), (1, Some 11)]"
      "Inr [example_status 30, example_status 20, example_status 19, example_status 12,
              example_status 11]"]
  by (simp add: collect_tweets_def MAX_COUNT_def example_status_def)

section \<open>Tweet.deserializer: the successful call\<close>

text \<open>What a successful call has gone through, and what the two stretches of plain
  arguments have read.\<close>

lemma py_getitem_Inr_iff:
  "py_getitem data k = Inr v \<longleftrightarrow> (\<exists>d. data = JObj d \<and> map_of d k = Some v)"
  by (cases data) (auto split: option.splits)

lemma py_get_Inr_iff:
  "py_get data k = Inr v \<longleftrightarrow>
     (\<exists>d. data = JObj d \<and> v = (case map_of d k of None \<Rightarrow> JNull | Some x \<Rightarrow> x))"
  by (cases data) auto

lemma Tweet_args_before_quoted_Inr:
  assumes "Tweet_args_before_quoted data = Inr mk"
  obtains d c i f s a b e uj u co p q where
    "data = JObj d" "map_of d ''full_text'' = Some f" "map_of d ''user'' = Some uj"
    "TweetUser_deserializer uj = Inr u"
    "mk = Tweet c i f s a b e u co p q
            (case map_of d ''quoted_status_id'' of None \<Rightarrow> JNull | Some x \<Rightarrow> x)"
  using assms unfolding Tweet_args_before_quoted_def
  by (elim bindE_InrE) (auto simp: py_getitem_Inr_iff py_get_Inr_iff)

lemma Tweet_args_before_retweeted_Inr:
  assumes "Tweet_args_before_retweeted data mk = Inr mk2"
  obtains d rc fc ent fav rt lang where
    "data = JObj d"
    "mk2 = mk rc fc ent fav rt
             (case map_of d ''possibly_sensitive'' of None \<Rightarrow> JNull | Some x \<Rightarrow> x) lang"
  using assms unfolding Tweet_args_before_retweeted_def
  by (elim bindE_InrE) (auto simp: py_getitem_Inr_iff py_get_Inr_iff)

lemma Tweet_deserializer_Inr:
  assumes "Tweet_deserializer data = (Inr t, data')"
  obtains data1 mk1 quoted_st data2 mk2 retweeted_st where
    "resolve_full_text data = Inr data1"
    "Tweet_args_before_quoted data1 = Inr mk1"
    "nested_status Tweet_deserializer data1 ''quoted_status'' = (Inr quoted_st, data2)"
    "Tweet_args_before_retweeted data2 (mk1 quoted_st) = Inr mk2"
    "nested_status Tweet_deserializer data2 ''retweeted_status'' = (Inr retweeted_st, data')"
    "t = mk2 retweeted_st"
  using assms
  by (subst (asm) Tweet_deserializer.simps) (auto split: sum.splits prod.splits)

text \<open>
  Example payloads: an author, and a post with the keys that the constructor call
  subscripts, to which a list of further entries is appended.
\<close>

definition example_user_payload :: "string \<Rightarrow> json" where
  "example_user_payload handle =
     JObj [(''id'', JInt 7), (''name'', JStr handle), (''screen_name'', JStr handle),
       (''location'', JNull), (''url'', JNull), (''description'', JNull),
       (''protected'', JBool False), (''verified'', JBool False),
       (''followers_count'', JInt 0), (''friends_count'', JInt 0), (''listed_count'', JInt 0),
       (''favourites_count'', JInt 0), (''statuses_count'', JInt 1),
       (''created_at'', JStr ''Mon Nov 29 21:18:15 +0000 2010''),
       (''profile_image_url_https'', JStr ''https://example.org/a.png''),
       (''default_profile'', JBool True), (''default_profile_image'', JBool True),
       (''withheld_in_countries'', JList [])]"

definition example_payload :: "string \<Rightarrow> (string \<times> json) list \<Rightarrow> json" where
  "example_payload handle extra =
     JObj ([(''created_at'', JStr ''Wed Oct 10 20:19:24 +0000 2018''), (''id'', JInt 1),
       (''source'', JStr ''web''), (''in_reply_to_status_id'', JNull),
       (''in_reply_to_user_id'', JNull), (''in_reply_to_screen_name'', JNull),
       (''user'', example_user_payload handle), (''coordinates'', JNull), (''place'', JNull),
       (''is_quote_status'', JBool False), (''retweet_count'', JInt 0),
       (''favorite_count'', JInt 0),
       (''entities'', JObj [(''hashtags'', JList []), (''urls'', JList []),
          (''user_mentions'', JList []), (''symbols'', JList [])]),
       (''favorited'', JBool False), (''retweeted'', JBool False), (''lang'', JStr ''en'')]
       @ extra)"

lemma example_user_deserialized:
  "TweetUser_deserializer (example_user_payload handle) = Inr (example_user handle)"
  by (simp add: TweetUser_deserializer_def example_user_payload_def example_user_def)

lemma example_plain:
  "Tweet_deserializer (example_payload ''alice'' [(''truncated'', JBool False), (''text'', JStr ''hello'')])
   = (Inr (example_tweet ''alice'' ''hello'' None None),
      example_payload ''alice'' [(''truncated'', JBool False), (''text'', JStr ''hello''),
        (''full_text'', JStr ''hello'')])"
  by (simp add: Tweet_deserializer.simps resolve_full_text_def Tweet_args_before_quoted_def
      Tweet_args_before_retweeted_def nested_status_def Entities_deserializer_def
      comprehension_def example_payload_def example_user_deserialized example_tweet_def)

section \<open>Reading a payload\<close>

text \<open>
  The value of a key of a payload: \<open>None\<close> when the payload is not a dictionary or has
  not the key. The claims about payloads are stated with it.
\<close>

fun lookup :: "json \<Rightarrow> string \<Rightarrow> json option" where
  "lookup (JObj d) k = map_of d k"
| "lookup JNull k = None"
| "lookup (JBool b) k = None"
| "lookup (JInt n) k = None"
| "lookup (JStr s) k = None"
| "lookup (JList xs) k = None"

lemma lookup_py_setitem:
  "py_setitem data k x = Inr data' \<Longrightarrow> lookup data' k' = (if k' = k then Some x else lookup data k')"
  by (cases data) (auto simp: update_conv')

lemma lookup_resolve_full_text:
  assumes "resolve_full_text data = Inr data1" and "k \<noteq> ''full_text''"
  shows "lookup data1 k = lookup data k"
  using resolve_full_text_cases [OF assms(1)] assms(2)
  by (auto simp: lookup_py_setitem)

lemma nested_status_absent:
  "lookup (JObj d) k = None \<Longrightarrow> nested_status f (JObj d) k = (Inr None, JObj d)"
  by (simp add: nested_status_def)

section \<open>A payload without optional fields\<close>

text \<open>
  Claim C9. The keys that the deserializers read with \<^verbatim>\<open>get\<close> or behind a test of
  presence are \<^verbatim>\<open>quoted_status_id\<close>, \<^verbatim>\<open>quoted_status\<close>, \<^verbatim>\<open>possibly_sensitive\<close>,
  \<^verbatim>\<open>retweeted_status\<close> and, in the author, \<^verbatim>\<open>profile_banner_url\<close>. When a payload has none
  of them and \<^verbatim>\<open>Tweet.deserializer\<close> accepts it, each of these fields of the post is
  \<^verbatim>\<open>None\<close>, and the row of \<^verbatim>\<open>tweets_to_df\<close> for the post has \<^verbatim>\<open>is_retweet = False\<close> and
  \<^verbatim>\<open>is_quote = None\<close>.
\<close>

theorem no_optional_fields:
  assumes ok: "Tweet_deserializer data = (Inr t, data')"
    and absent: "lookup data ''quoted_status_id'' = None" "lookup data ''quoted_status'' = None"
      "lookup data ''possibly_sensitive'' = None" "lookup data ''retweeted_status'' = None"
    and banner: "\<forall>u. lookup data ''user'' = Some u \<longrightarrow> lookup u ''profile_banner_url'' = None"
  shows "quoted_status_id t = JNull \<and> quoted_status t = None \<and> possibly_sensitive t = JNull
    \<and> retweeted_status t = None \<and> TweetUser.profile_banner_url (user t) = JNull
    \<and> column (tweets_to_df [t]) ''is_retweet'' = [JBool False]
    \<and> column (tweets_to_df [t]) ''is_quote'' = [JNull]"
proof -
  from ok obtain data1 mk1 quoted_st data2 mk2 retweeted_st where
    r: "resolve_full_text data = Inr data1"
    and a1: "Tweet_args_before_quoted data1 = Inr mk1"
    and n1: "nested_status Tweet_deserializer data1 ''quoted_status'' = (Inr quoted_st, data2)"
    and a2: "Tweet_args_before_retweeted data2 (mk1 quoted_st) = Inr mk2"
    and n2: "nested_status Tweet_deserializer data2 ''retweeted_status'' = (Inr retweeted_st, data')"
    and t: "t = mk2 retweeted_st"
    by (rule Tweet_deserializer_Inr)
  from a1 obtain d c i f s a b e uj u co p q where
    d: "data1 = JObj d" and uj: "map_of d ''user'' = Some uj"
    and u: "TweetUser_deserializer uj = Inr u"
    and mk1: "mk1 = Tweet c i f s a b e u co p q
            (case map_of d ''quoted_status_id'' of None \<Rightarrow> JNull | Some x \<Rightarrow> x)"
    by (rule Tweet_args_before_quoted_Inr)
  have same: "map_of d k = lookup data k" if "k \<noteq> ''full_text''" for k
    using lookup_resolve_full_text [OF r that] d by simp
  from n1 d same [of "''quoted_status''"] absent(2)
  have q: "quoted_st = None" and d2: "data2 = JObj d"
    by (simp_all add: nested_status_absent)
  from a2 d2 obtain rc fc ent fav rt lang where
    mk2: "mk2 = mk1 quoted_st rc fc ent fav rt
             (case map_of d ''possibly_sensitive'' of None \<Rightarrow> JNull | Some x \<Rightarrow> x) lang"
    by (auto elim: Tweet_args_before_retweeted_Inr)
  from n2 d2 same [of "''retweeted_status''"] absent(4)
  have rs: "retweeted_st = None"
    by (simp add: nested_status_absent)
  from uj same [of "''user''"] banner have "lookup uj ''profile_banner_url'' = None"
    by simp
  with u have pb: "TweetUser.profile_banner_url u = JNull"
    unfolding TweetUser_deserializer_def
    by (elim bindE_InrE) (auto simp: py_getitem_Inr_iff py_get_Inr_iff)
  from t mk2 mk1 q rs same [of "''quoted_status_id''"] same [of "''possibly_sensitive''"] absent pb
  have fields: "quoted_status_id t = JNull" "quoted_status t = None" "possibly_sensitive t = JNull"
    "retweeted_status t = None" "TweetUser.profile_banner_url (user t) = JNull"
    by simp_all
  from fields have "get_quote t = (JNull, JNull)"
    by (subst get_quote_eq) simp
  with fields show ?thesis
    by (simp add: column_def tweets_to_df_def df_columns_def tweet_row_def)
qed

theorem no_optional_fields_witness:
  "Tweet_deserializer
     (example_payload ''alice'' [(''truncated'', JBool False), (''text'', JStr ''hello'')])
   = (Inr (example_tweet ''alice'' ''hello'' None None),
      example_payload ''alice'' [(''truncated'', JBool False), (''text'', JStr ''hello''),
        (''full_text'', JStr ''hello'')])
   \<and> column (tweets_to_df [example_tweet ''alice'' ''hello'' None None]) ''is_retweet''
     = [JBool False]
   \<and> column (tweets_to_df [example_tweet ''alice'' ''hello'' None None]) ''is_quote''
     = [JNull]
   \<and> quoted_status (example_tweet ''alice'' ''hello'' None None) = None"
proof -
  let ?p = "example_payload ''alice'' [(''truncated'', JBool False), (''text'', JStr ''hello'')]"
  have absent: "lookup ?p ''quoted_status_id'' = None" "lookup ?p ''quoted_status'' = None"
    "lookup ?p ''possibly_sensitive'' = None" "lookup ?p ''retweeted_status'' = None"
    by (simp_all add: example_payload_def)
  have banner: "\<forall>u. lookup ?p ''user'' = Some u \<longrightarrow> lookup u ''profile_banner_url'' = None"
    by (simp add: example_payload_def example_user_payload_def)
  from no_optional_fields [OF example_plain absent banner] example_plain
  show ?thesis by simp
qed

section \<open>The resolution of full_text\<close>

text \<open>
  The chain of the spec: the value of the key \<^verbatim>\<open>full_text\<close> when the payload has it;
  otherwise, when \<^verbatim>\<open>truncated\<close> is true and \<^verbatim>\<open>extended_tweet\<close> is present, the \<^verbatim>\<open>full_text\<close>
  of that record; otherwise, when \<^verbatim>\<open>retweeted_status\<close> is present and carries
  \<^verbatim>\<open>extended_tweet\<close>, the \<^verbatim>\<open>full_text\<close> of that record; otherwise the value of \<^verbatim>\<open>text\<close>.
  The result is \<open>None\<close> when the selected source is missing.
\<close>

definition full_text_source :: "json \<Rightarrow> json option" where
  "full_text_source data =
     (case lookup data ''full_text'' of
        Some v \<Rightarrow> Some v
      | None \<Rightarrow>
          if (case lookup data ''truncated'' of Some flag \<Rightarrow> truthy flag | None \<Rightarrow> False)
             \<and> lookup data ''extended_tweet'' \<noteq> None
          then Option.bind (lookup data ''extended_tweet'') (\<lambda>e. lookup e ''full_text'')
          else if Option.bind (lookup data ''retweeted_status'')
                    (\<lambda>r. lookup r ''extended_tweet'') \<noteq> None
          then Option.bind (lookup data ''retweeted_status'')
                 (\<lambda>r. Option.bind (lookup r ''extended_tweet'') (\<lambda>e. lookup e ''full_text''))
          else lookup data ''text'')"

lemma py_getitem_lookup: "py_getitem data k = Inr v \<longleftrightarrow> lookup data k = Some v"
  by (cases data) (auto split: option.splits)

lemma py_in_obj: "py_in k (JObj d) = Inr b \<longleftrightarrow> b = (map_of d k \<noteq> None)"
  by auto

lemma lookup_py_in_False: "py_in k v = Inr False \<Longrightarrow> lookup v k = None"
  by (cases v) auto

lemma lookup_py_in_True: "py_in k v = Inr True \<Longrightarrow> py_getitem v k = Inr e \<Longrightarrow> lookup v k = Some e"
  by (cases v) (auto split: option.splits)

lemma resolve_full_text_source:
  assumes r: "resolve_full_text data = Inr data1" and f: "lookup data1 ''full_text'' = Some f"
  shows "full_text_source data = Some f"
proof (cases data)
  case (JObj d)
  note defs = resolve_full_text_def full_text_source_def bindE_Inr_iff py_getitem_lookup
    update_conv'
  show ?thesis
  proof (cases "map_of d ''full_text''")
    case (Some v)
    with r JObj have "data1 = data" by (simp add: resolve_full_text_def)
    with f JObj Some show ?thesis by (simp add: full_text_source_def)
  next
    case None
    with r JObj obtain flag where flag: "map_of d ''truncated'' = Some flag"
      by (cases "map_of d ''truncated''") (simp_all add: resolve_full_text_def)
    show ?thesis
    proof (cases "truthy flag \<and> map_of d ''extended_tweet'' \<noteq> None")
      case True
      with r f JObj None flag show ?thesis
        by (auto simp: defs split: if_splits option.splits)
    next
      case False
      show ?thesis
      proof (cases "map_of d ''retweeted_status''")
        case no_rt: None
        with r f JObj None flag False show ?thesis
          by (auto simp: defs split: if_splits option.splits)
      next
        case (Some rt)
        show ?thesis
        proof (cases "py_in ''extended_tweet'' rt")
          case (Inl e)
          with r JObj None flag False Some show ?thesis
            by (auto simp: defs split: if_splits option.splits)
        next
          case (Inr c)
          show ?thesis
          proof (cases c)
            case True
            with Inr r f JObj None flag False Some show ?thesis
              by (auto simp: defs split: if_splits option.splits)
          next
            case no: False
            with Inr have "lookup rt ''extended_tweet'' = None"
              by (simp add: lookup_py_in_False)
            with no Inr r f JObj None flag False Some show ?thesis
              by (auto simp: defs split: if_splits option.splits)
          qed
        qed
      qed
    qed
  qed
next
  case JNull
  with r show ?thesis by (simp add: resolve_full_text_def)
next
  case (JBool b)
  with r show ?thesis by (simp add: resolve_full_text_def)
next
  case (JInt n)
  with r show ?thesis by (simp add: resolve_full_text_def)
next
  case (JStr s)
  with r have "data1 = data" by (auto simp: resolve_full_text_def split: if_splits)
  with f JStr show ?thesis by simp
next
  case (JList xs)
  with r have "data1 = data" by (auto simp: resolve_full_text_def split: if_splits)
  with f JList show ?thesis by simp
qed

text \<open>
  What lines 333 to 339 do to a dictionary on which they do not raise: the value that the
  chain selects is there, and the payload is the dictionary with that value under
  \<^verbatim>\<open>full_text\<close>. Resolving again changes nothing, so that the call on the payload is the
  call on the resolved payload.
\<close>

lemma resolve_full_text_sets:
  assumes "resolve_full_text (JObj d) = Inr data1" and "map_of d ''full_text'' = None"
  shows "\<exists>v. data1 = JObj (AList.update ''full_text'' v d)"
proof -
  have set: "py_setitem (JObj d) ''full_text'' v = Inr data1 \<Longrightarrow> ?thesis" for v
    by auto
  from assms show ?thesis
    unfolding resolve_full_text_def
    by (elim bindE_InrE)
      (auto split: if_splits elim!: bindE_InrE simp del: py_setitem.simps; rule set; assumption)
qed

lemma resolve_full_text_writes:
  assumes r: "resolve_full_text (JObj d) = Inr data1"
  shows "\<exists>v. full_text_source (JObj d) = Some v \<and> data1 = JObj (AList.update ''full_text'' v d)"
proof (cases "map_of d ''full_text''")
  case (Some v)
  with r have "data1 = JObj d" by (simp add: resolve_full_text_def)
  with Some show ?thesis by (simp add: full_text_source_def update_triv)
next
  case None
  from resolve_full_text_sets [OF r None] obtain v where
    v: "data1 = JObj (AList.update ''full_text'' v d)" by blast
  then have "lookup data1 ''full_text'' = Some v" by (simp add: update_conv')
  with r have "full_text_source (JObj d) = Some v" by (rule resolve_full_text_source)
  with v show ?thesis by blast
qed

lemma resolve_full_text_not_obj:
  "\<forall>d. data \<noteq> JObj d \<Longrightarrow> resolve_full_text data = Inr data1 \<Longrightarrow> data1 = data"
  using resolve_full_text_cases [of data data1] by (cases data) auto

lemma resolve_full_text_again:
  assumes r: "resolve_full_text data = Inr data1"
  shows "resolve_full_text data1 = Inr data1"
proof (cases "\<exists>d. data = JObj d")
  case True
  then obtain d where d: "data = JObj d" by blast
  from resolve_full_text_writes [OF r [unfolded d]] show ?thesis
    by (auto simp: resolve_full_text_def update_conv')
next
  case False
  then have "data1 = data" using r by (auto intro: resolve_full_text_not_obj)
  with r show ?thesis by simp
qed

lemma Tweet_deserializer_resolved:
  assumes r: "resolve_full_text data = Inr data1"
  shows "Tweet_deserializer data = Tweet_deserializer data1"
  using r resolve_full_text_again [OF r]
  by (subst Tweet_deserializer.simps [of data], subst Tweet_deserializer.simps [of data1]) simp

lemma Tweet_deserializer_raises:
  "resolve_full_text data = Inl e \<Longrightarrow> Tweet_deserializer data = (Inl e, data)"
  by (subst Tweet_deserializer.simps) simp

text \<open>
  The \<^verbatim>\<open>full_text\<close> of the post that the call returns, \<open>None\<close> when the call raises.
\<close>

definition returned_full_text :: "json \<Rightarrow> json option" where
  "returned_full_text data =
     (case fst (Tweet_deserializer data) of
        Inr t \<Rightarrow> Some (full_text t)
      | Inl e \<Rightarrow> None)"

text \<open>
  A payload for each of the sources of the chain, a payload without the keys of the
  constructor call, and a payload without a source.
\<close>

lemma example_full_text:
  "Tweet_deserializer
     (example_payload ''alice'' [(''full_text'', JStr ''long''), (''text'', JStr ''short'')])
   = (Inr (example_tweet ''alice'' ''long'' None None),
      example_payload ''alice'' [(''full_text'', JStr ''long''), (''text'', JStr ''short'')])"
  by (simp add: Tweet_deserializer.simps resolve_full_text_def Tweet_args_before_quoted_def
      Tweet_args_before_retweeted_def nested_status_def Entities_deserializer_def
      comprehension_def example_payload_def example_user_deserialized example_tweet_def)

lemma example_truncated:
  "Tweet_deserializer
     (example_payload ''bob'' [(''truncated'', JBool True), (''text'', JStr ''short''),
        (''extended_tweet'', JObj [(''full_text'', JStr ''long'')])])
   = (Inr (example_tweet ''bob'' ''long'' None None),
      example_payload ''bob'' [(''truncated'', JBool True), (''text'', JStr ''short''),
        (''extended_tweet'', JObj [(''full_text'', JStr ''long'')]),
        (''full_text'', JStr ''long'')])"
  by (simp add: Tweet_deserializer.simps resolve_full_text_def Tweet_args_before_quoted_def
      Tweet_args_before_retweeted_def nested_status_def Entities_deserializer_def
      comprehension_def example_payload_def example_user_deserialized example_tweet_def)

lemma example_reshare:
  "Tweet_deserializer
     (example_payload ''carol'' [(''truncated'', JBool False), (''text'', JStr ''RT short''),
        (''retweeted_status'',
          example_payload ''bob'' [(''truncated'', JBool True), (''text'', JStr ''short''),
            (''extended_tweet'', JObj [(''full_text'', JStr ''long'')])])])
   = (Inr (example_tweet ''carol'' ''long'' None (Some (example_tweet ''bob'' ''long'' None None))),
      example_payload ''carol'' [(''truncated'', JBool False), (''text'', JStr ''RT short''),
        (''retweeted_status'',
          example_payload ''bob'' [(''truncated'', JBool True), (''text'', JStr ''short''),
            (''extended_tweet'', JObj [(''full_text'', JStr ''long'')]),
            (''full_text'', JStr ''long'')]),
        (''full_text'', JStr ''long'')])"
proof -
  note inner = example_truncated [unfolded example_payload_def, simplified]
  show ?thesis
    apply (subst Tweet_deserializer.simps)
    apply (simp add: resolve_full_text_def Tweet_args_before_quoted_def
      Tweet_args_before_retweeted_def nested_status_def Entities_deserializer_def
      comprehension_def example_payload_def example_user_deserialized example_tweet_def
      inner with_child_def)
    done
qed

lemma example_resolution:
  "resolve_full_text (JObj [(''truncated'', JBool False), (''text'', JStr ''hello'')])
   = Inr (JObj [(''truncated'', JBool False), (''text'', JStr ''hello''),
            (''full_text'', JStr ''hello'')])"
  by (simp add: resolve_full_text_def)

lemma example_no_source:
  "resolve_full_text (JObj [(''text'', JStr ''hello'')]) = Inl (KeyError ''truncated'')"
  by (simp add: resolve_full_text_def)

text \<open>
  The \<^verbatim>\<open>full_text\<close> of the post of an accepted payload is not always a string that is
  present: the value is copied without a check. A payload whose key \<^verbatim>\<open>full_text\<close> holds
  \<^verbatim>\<open>null\<close> is accepted, though its \<^verbatim>\<open>text\<close> is a string, and so is a payload without the key
  whose \<^verbatim>\<open>text\<close> holds \<^verbatim>\<open>null\<close>; the post has \<^verbatim>\<open>full_text = None\<close> in both cases.
\<close>

theorem full_text_resolution_counterexample:
  "returned_full_text
     (example_payload ''alice'' [(''full_text'', JNull), (''text'', JStr ''short'')])
   = Some JNull
   \<and> returned_full_text
     (example_payload ''alice'' [(''truncated'', JBool False), (''text'', JNull)])
   = Some JNull"
  by (simp add: returned_full_text_def Tweet_deserializer.simps resolve_full_text_def
      Tweet_args_before_quoted_def Tweet_args_before_retweeted_def nested_status_def
      Entities_deserializer_def comprehension_def example_payload_def
      example_user_deserialized)

text \<open>
  Claim C1, amended. For every payload that \<^verbatim>\<open>Tweet.deserializer\<close> accepts, the \<^verbatim>\<open>full_text\<close>
  of the post is the value that the chain selects, in the order of the chain, and the
  selected key is present in the payload; the value is the one that the payload stores
  there, whatever its type. The resolution itself, on every dictionary on which it does
  not raise, finds the value of the chain and puts it under \<^verbatim>\<open>full_text\<close> (the dictionary is
  the same when the key was there), and the call on the payload gives what the call on
  the resolved payload gives; when the resolution raises, the call raises the same
  exception.
\<close>

theorem full_text_resolution:
  "(Tweet_deserializer data = (Inr t, data') \<longrightarrow>
      full_text_source data = Some (full_text t)
      \<and> returned_full_text data = full_text_source data)
   \<and> (resolve_full_text (JObj d) = Inr data1 \<longrightarrow>
        (\<exists>v. full_text_source (JObj d) = Some v
           \<and> data1 = JObj (AList.update ''full_text'' v d)
           \<and> Tweet_deserializer (JObj d) = Tweet_deserializer data1))
   \<and> (resolve_full_text data = Inl e \<longrightarrow> fst (Tweet_deserializer data) = Inl e)"
proof (intro impI conjI)
  assume ok: "Tweet_deserializer data = (Inr t, data')"
  then obtain data1 mk1 quoted_st data2 mk2 retweeted_st where
    r: "resolve_full_text data = Inr data1"
    and a1: "Tweet_args_before_quoted data1 = Inr mk1"
    and a2: "Tweet_args_before_retweeted data2 (mk1 quoted_st) = Inr mk2"
    and t: "t = mk2 retweeted_st"
    by (rule Tweet_deserializer_Inr)
  from a1 obtain d c i f s a b e uj u co p q where
    d: "data1 = JObj d" and f: "map_of d ''full_text'' = Some f"
    and mk1: "mk1 = Tweet c i f s a b e u co p q
            (case map_of d ''quoted_status_id'' of None \<Rightarrow> JNull | Some x \<Rightarrow> x)"
    by (rule Tweet_args_before_quoted_Inr)
  from a2 obtain d2 rc fc ent fav rt lang where
    mk2: "mk2 = mk1 quoted_st rc fc ent fav rt
             (case map_of d2 ''possibly_sensitive'' of None \<Rightarrow> JNull | Some x \<Rightarrow> x) lang"
    by (rule Tweet_args_before_retweeted_Inr)
  from t mk2 mk1 have "full_text t = f" by simp
  moreover from r d f have "full_text_source data = Some f"
    by (simp add: resolve_full_text_source)
  ultimately show source: "full_text_source data = Some (full_text t)" by simp
  with ok show "returned_full_text data = full_text_source data"
    by (simp add: returned_full_text_def)
next
  assume r: "resolve_full_text (JObj d) = Inr data1"
  from resolve_full_text_writes [OF r] Tweet_deserializer_resolved [OF r]
  show "\<exists>v. full_text_source (JObj d) = Some v
      \<and> data1 = JObj (AList.update ''full_text'' v d)
      \<and> Tweet_deserializer (JObj d) = Tweet_deserializer data1"
    by blast
next
  assume "resolve_full_text data = Inl e"
  then show "fst (Tweet_deserializer data) = Inl e"
    by (simp add: Tweet_deserializer_raises)
qed

theorem full_text_resolution_witness:
  "Tweet_deserializer
     (example_payload ''alice'' [(''full_text'', JStr ''long''), (''text'', JStr ''short'')])
   = (Inr (example_tweet ''alice'' ''long'' None None),
      example_payload ''alice'' [(''full_text'', JStr ''long''), (''text'', JStr ''short'')])
   \<and> full_text_source
     (example_payload ''alice'' [(''full_text'', JStr ''long''), (''text'', JStr ''short'')])
     = Some (JStr ''long'')
   \<and> fst (Tweet_deserializer
       (example_payload ''bob'' [(''truncated'', JBool True), (''text'', JStr ''short''),
          (''extended_tweet'', JObj [(''full_text'', JStr ''long'')])]))
     = Inr (example_tweet ''bob'' ''long'' None None)
   \<and> full_text_source
     (example_payload ''bob'' [(''truncated'', JBool True), (''text'', JStr ''short''),
        (''extended_tweet'', JObj [(''full_text'', JStr ''long'')])])
     = Some (JStr ''long'')
   \<and> fst (Tweet_deserializer
       (example_payload ''carol'' [(''truncated'', JBool False), (''text'', JStr ''RT short''),
          (''retweeted_status'',
            example_payload ''bob'' [(''truncated'', JBool True), (''text'', JStr ''short''),
              (''extended_tweet'', JObj [(''full_text'', JStr ''long'')])])]))
     = Inr (example_tweet ''carol'' ''long'' None
              (Some (example_tweet ''bob'' ''long'' None None)))
   \<and> full_text_source
     (example_payload ''carol'' [(''truncated'', JBool False), (''text'', JStr ''RT short''),
        (''retweeted_status'',
          example_payload ''bob'' [(''truncated'', JBool True), (''text'', JStr ''short''),
            (''extended_tweet'', JObj [(''full_text'', JStr ''long'')])])])
     = Some (JStr ''long'')
   \<and> fst (Tweet_deserializer
       (example_payload ''alice'' [(''truncated'', JBool False), (''text'', JStr ''hello'')]))
     = Inr (example_tweet ''alice'' ''hello'' None None)
   \<and> full_text_source
     (example_payload ''alice'' [(''truncated'', JBool False), (''text'', JStr ''hello'')])
     = Some (JStr ''hello'')
   \<and> resolve_full_text (JObj [(''truncated'', JBool False), (''text'', JStr ''hello'')])
     = Inr (JObj [(''truncated'', JBool False), (''text'', JStr ''hello''),
              (''full_text'', JStr ''hello'')])
   \<and> full_text_source (JObj [(''truncated'', JBool False), (''text'', JStr ''hello'')])
     = Some (JStr ''hello'')
   \<and> fst (Tweet_deserializer (JObj [(''text'', JStr ''hello'')])) = Inl (KeyError ''truncated'')"
proof -
  note accepted = full_text_resolution [THEN conjunct1, THEN mp, THEN conjunct1]
  from full_text_resolution [of _ _ _ "[(''truncated'', JBool False), (''text'', JStr ''hello'')]"
      "JObj [(''truncated'', JBool False), (''text'', JStr ''hello''),
            (''full_text'', JStr ''hello'')]"]
  have 1: "full_text_source (JObj [(''truncated'', JBool False), (''text'', JStr ''hello'')])
     = Some (JStr ''hello'')"
    using example_resolution by auto
  from full_text_resolution [of "JObj [(''text'', JStr ''hello'')]" _ _ _ _
      "KeyError ''truncated''"]
  have 2: "fst (Tweet_deserializer (JObj [(''text'', JStr ''hello'')]))
      = Inl (KeyError ''truncated'')"
    using example_no_source by simp
  from accepted [OF example_full_text] accepted [OF example_truncated]
    accepted [OF example_reshare] accepted [OF example_plain]
    example_full_text example_truncated example_reshare example_plain
    example_resolution 1 2
  show ?thesis
    by (simp add: example_tweet_def)
qed

section \<open>The effect of Tweet.deserializer on its input\<close>

text \<open>
  Every post payload of the input has the key \<^verbatim>\<open>full_text\<close>: the payload itself and the
  payloads nested under \<^verbatim>\<open>quoted_status\<close> and \<^verbatim>\<open>retweeted_status\<close>, at every depth. A value
  that is not a dictionary is not a post payload.
\<close>

function has_full_text_everywhere :: "json \<Rightarrow> bool" where
  "has_full_text_everywhere data =
     (case data of
        JObj d \<Rightarrow>
          map_of d ''full_text'' \<noteq> None
          \<and> (case map_of d ''quoted_status'' of
                None \<Rightarrow> True | Some q \<Rightarrow> has_full_text_everywhere q)
          \<and> (case map_of d ''retweeted_status'' of
                None \<Rightarrow> True | Some r \<Rightarrow> has_full_text_everywhere r)
      | _ \<Rightarrow> True)"
  by pat_completeness auto
termination
  by (relation "measure size") (auto dest: size_map_of)

declare has_full_text_everywhere.simps [simp del]

lemma nested_status_state:
  "snd (nested_status f data k) = data
   \<or> (\<exists>child. py_getitem data k = Inr child
         \<and> snd (nested_status f data k) = with_child data k (snd (f child)))"
  by (auto simp: nested_status_def split: sum.splits prod.splits)

lemma Tweet_deserializer_state:
  "snd (Tweet_deserializer data) = data
   \<or> (\<exists>data1. resolve_full_text data = Inr data1
        \<and> (snd (Tweet_deserializer data) = data1
           \<or> snd (Tweet_deserializer data)
               = snd (nested_status Tweet_deserializer data1 ''quoted_status'')
           \<or> snd (Tweet_deserializer data)
               = snd (nested_status Tweet_deserializer
                        (snd (nested_status Tweet_deserializer data1 ''quoted_status''))
                        ''retweeted_status'')))"
  by (subst (1 2 3 4) Tweet_deserializer.simps) (auto split: sum.splits prod.splits)


lemma with_child_same: "py_getitem data k = Inr child \<Longrightarrow> with_child data k child = data"
  by (cases data) (auto simp: with_child_def update_triv split: option.splits)

lemma lookup_with_child:
  "lookup (with_child data k c) k' =
     (if k' = k \<and> (\<exists>d. data = JObj d) then Some c else lookup data k')"
  by (cases data) (auto simp: with_child_def update_conv')

lemma resolve_full_text_unchanged:
  "lookup data ''full_text'' \<noteq> None \<Longrightarrow> resolve_full_text data = Inr data1 \<Longrightarrow> data1 = data"
  by (cases data) (auto simp: resolve_full_text_def)

lemma nested_status_not_obj:
  "\<forall>d. data \<noteq> JObj d \<Longrightarrow> snd (nested_status f data k) = data"
  by (cases data) (auto simp: nested_status_def split: sum.splits prod.splits)

lemma Tweet_deserializer_not_obj:
  assumes "\<forall>d. data \<noteq> JObj d"
  shows "snd (Tweet_deserializer data) = data"
proof -
  have r: "data1 = data" if "resolve_full_text data = Inr data1" for data1
    using assms that by (rule resolve_full_text_not_obj)
  have n: "snd (nested_status Tweet_deserializer data k) = data" for k
    using assms by (rule nested_status_not_obj)
  from Tweet_deserializer_state [of data] show ?thesis
  proof (elim disjE exE conjE)
    assume "snd (Tweet_deserializer data) = data"
    then show ?thesis .
  next
    fix data1
    assume "resolve_full_text data = Inr data1" "snd (Tweet_deserializer data) = data1"
    with r show ?thesis by simp
  next
    fix data1
    assume "resolve_full_text data = Inr data1"
      "snd (Tweet_deserializer data)
         = snd (nested_status Tweet_deserializer data1 ''quoted_status'')"
    with r n show ?thesis by simp
  next
    fix data1
    assume "resolve_full_text data = Inr data1"
      "snd (Tweet_deserializer data)
         = snd (nested_status Tweet_deserializer
                  (snd (nested_status Tweet_deserializer data1 ''quoted_status''))
                  ''retweeted_status'')"
    with r n show ?thesis by simp
  qed
qed

lemma Tweet_deserializer_unchanged:
  "has_full_text_everywhere data \<Longrightarrow> snd (Tweet_deserializer data) = data"
proof (induction data rule: has_full_text_everywhere.induct)
  case (1 data)
  show ?case
  proof (cases data)
    case (JObj d)
    from "1.prems" JObj have ft: "lookup data ''full_text'' \<noteq> None"
      by (subst (asm) has_full_text_everywhere.simps) simp
    have nested: "snd (nested_status Tweet_deserializer data k) = data"
      if "k = ''quoted_status'' \<or> k = ''retweeted_status''" for k
    proof -
      have "snd (Tweet_deserializer child) = child" if c: "py_getitem data k = Inr child" for child
      proof -
        from c JObj have m: "map_of d k = Some child" by (simp split: option.splits)
        with "1.prems" JObj \<open>k = ''quoted_status'' \<or> k = ''retweeted_status''\<close>
        have "has_full_text_everywhere child"
          by (subst (asm) has_full_text_everywhere.simps) auto
        with "1.IH" JObj m \<open>k = ''quoted_status'' \<or> k = ''retweeted_status''\<close>
        show ?thesis by auto
      qed
      with nested_status_state [of Tweet_deserializer data k] show ?thesis
        by (auto simp: with_child_same)
    qed
    have r: "data1 = data" if "resolve_full_text data = Inr data1" for data1
      using ft that by (rule resolve_full_text_unchanged)
    from Tweet_deserializer_state [of data] show ?thesis
    proof (elim disjE exE conjE)
      assume "snd (Tweet_deserializer data) = data"
      then show ?thesis .
    next
      fix data1
      assume "resolve_full_text data = Inr data1" "snd (Tweet_deserializer data) = data1"
      with r show ?thesis by simp
    next
      fix data1
      assume "resolve_full_text data = Inr data1"
        "snd (Tweet_deserializer data)
           = snd (nested_status Tweet_deserializer data1 ''quoted_status'')"
      with r nested show ?thesis by simp
    next
      fix data1
      assume "resolve_full_text data = Inr data1"
        "snd (Tweet_deserializer data)
           = snd (nested_status Tweet_deserializer
                    (snd (nested_status Tweet_deserializer data1 ''quoted_status''))
                    ''retweeted_status'')"
      with r nested show ?thesis by simp
    qed
  next
    case JNull
    then have "\<forall>d. data \<noteq> JObj d" by simp
    then show ?thesis by (rule Tweet_deserializer_not_obj)
  next
    case (JBool b)
    then have "\<forall>d. data \<noteq> JObj d" by simp
    then show ?thesis by (rule Tweet_deserializer_not_obj)
  next
    case (JInt n)
    then have "\<forall>d. data \<noteq> JObj d" by simp
    then show ?thesis by (rule Tweet_deserializer_not_obj)
  next
    case (JStr s)
    then have "\<forall>d. data \<noteq> JObj d" by simp
    then show ?thesis by (rule Tweet_deserializer_not_obj)
  next
    case (JList xs)
    then have "\<forall>d. data \<noteq> JObj d" by simp
    then show ?thesis by (rule Tweet_deserializer_not_obj)
  qed
qed


lemma lookup_nested_status_other:
  "k' \<noteq> k \<Longrightarrow> lookup (snd (nested_status f data k)) k' = lookup data k'"
  using nested_status_state [of f data k] by (auto simp: lookup_with_child)

lemma lookup_nested_status_same:
  "lookup (snd (nested_status f data k)) k = lookup data k
   \<or> (\<exists>c. lookup data k = Some c \<and> lookup (snd (nested_status f data k)) k = Some (snd (f c)))"
  using nested_status_state [of f data k]
  by (auto simp: lookup_with_child py_getitem_Inr_iff)

lemma lookup_resolve_full_text_same:
  assumes "resolve_full_text data = Inr data1"
  shows "lookup data1 ''full_text'' = lookup data ''full_text''
    \<or> (lookup data ''full_text'' = None \<and> lookup data1 ''full_text'' = full_text_source data)"
proof (cases "lookup data ''full_text''")
  case (Some v)
  then have "lookup data ''full_text'' \<noteq> None" by simp
  from this assms have "data1 = data" by (rule resolve_full_text_unchanged)
  then show ?thesis by simp
next
  case None
  show ?thesis
  proof (cases "lookup data1 ''full_text''")
    case no: None
    with None show ?thesis by simp
  next
    case (Some f)
    with assms have "full_text_source data = Some f" by (rule resolve_full_text_source)
    with None Some show ?thesis by simp
  qed
qed

definition touched :: "json \<Rightarrow> string \<Rightarrow> json option \<Rightarrow> bool" where
  "touched data k x \<longleftrightarrow>
     x = lookup data k
     \<or> (k = ''full_text'' \<and> lookup data ''full_text'' = None \<and> x = full_text_source data)
     \<or> ((k = ''quoted_status'' \<or> k = ''retweeted_status'')
        \<and> (\<exists>c. lookup data k = Some c \<and> x = Some (snd (Tweet_deserializer c))))"

lemma touched_state: "touched data k (lookup (snd (Tweet_deserializer data)) k)"
proof -
  have stage: "touched data k (lookup data1 k)
      \<and> touched data k (lookup (snd (nested_status Tweet_deserializer data1 ''quoted_status'')) k)
      \<and> touched data k (lookup (snd (nested_status Tweet_deserializer
            (snd (nested_status Tweet_deserializer data1 ''quoted_status''))
            ''retweeted_status'')) k)"
    if r: "resolve_full_text data = Inr data1" for data1
  proof -
    let ?n1 = "snd (nested_status Tweet_deserializer data1 ''quoted_status'')"
    let ?n2 = "snd (nested_status Tweet_deserializer ?n1 ''retweeted_status'')"
    consider (ft) "k = ''full_text''" | (qs) "k = ''quoted_status''"
      | (rs) "k = ''retweeted_status''"
      | (other) "k \<noteq> ''full_text''" "k \<noteq> ''quoted_status''" "k \<noteq> ''retweeted_status''"
      by blast
    then show ?thesis
    proof cases
      case ft
      with lookup_resolve_full_text_same [OF r] show ?thesis
        by (auto simp: touched_def lookup_nested_status_other)
    next
      case qs
      from lookup_resolve_full_text [OF r, of k] qs
      have 1: "lookup data1 k = lookup data k" by simp
      from qs have 2: "lookup ?n2 k = lookup ?n1 k"
        by (simp add: lookup_nested_status_other)
      from lookup_nested_status_same [of Tweet_deserializer data1 "''quoted_status''"] 1 2 qs
      show ?thesis by (auto simp: touched_def)
    next
      case rs
      from lookup_resolve_full_text [OF r, of k] rs
      have 1: "lookup data1 k = lookup data k" by simp
      from rs have 2: "lookup ?n1 k = lookup data1 k"
        by (simp add: lookup_nested_status_other)
      from lookup_nested_status_same [of Tweet_deserializer ?n1 "''retweeted_status''"] 1 2 rs
      show ?thesis by (auto simp: touched_def)
    next
      case other
      with lookup_resolve_full_text [OF r, of k] show ?thesis
        by (simp add: touched_def lookup_nested_status_other)
    qed
  qed
  have "touched data k (lookup data k)" by (simp add: touched_def)
  with Tweet_deserializer_state [of data] stage show ?thesis
    by (elim disjE exE conjE) simp_all
qed

lemma Tweet_deserializer_state_resolved:
  assumes "resolve_full_text data = Inr data1"
  shows "snd (Tweet_deserializer data) = data1
    \<or> snd (Tweet_deserializer data)
        = snd (nested_status Tweet_deserializer data1 ''quoted_status'')
    \<or> snd (Tweet_deserializer data)
        = snd (nested_status Tweet_deserializer
                 (snd (nested_status Tweet_deserializer data1 ''quoted_status''))
                 ''retweeted_status'')"
  using assms
  by (subst (1 2 3) Tweet_deserializer.simps) (auto split: sum.splits prod.splits)

lemma full_text_written:
  assumes r: "resolve_full_text (JObj d) = Inr data1"
  shows "\<exists>v. full_text_source (JObj d) = Some v
    \<and> lookup (snd (Tweet_deserializer (JObj d))) ''full_text'' = Some v"
proof -
  from resolve_full_text_writes [OF r] obtain v where
    v: "full_text_source (JObj d) = Some v" and "data1 = JObj (AList.update ''full_text'' v d)"
    by blast
  then have "lookup data1 ''full_text'' = Some v" by (simp add: update_conv')
  with Tweet_deserializer_state_resolved [OF r]
  have "lookup (snd (Tweet_deserializer (JObj d))) ''full_text'' = Some v"
    by (auto simp: lookup_nested_status_other)
  with v show ?thesis by blast
qed

lemma nested_status_present:
  "lookup data k = Some c \<Longrightarrow>
   snd (nested_status f data k) = with_child data k (snd (f c))"
  by (cases data) (auto simp: nested_status_def split: sum.splits prod.splits)

lemma lookup_nested_status_present:
  "lookup data k = Some c \<Longrightarrow>
   lookup (snd (nested_status f data k)) k = Some (snd (f c))"
  by (cases data) (auto simp: nested_status_present lookup_with_child)

lemma accepted_state:
  assumes ok: "Tweet_deserializer data = (Inr t, data')"
  shows "lookup data' ''full_text'' = Some (full_text t)"
    and "lookup data ''quoted_status'' = Some nested \<Longrightarrow>
         lookup data' ''quoted_status'' = Some (snd (Tweet_deserializer nested))"
    and "lookup data ''retweeted_status'' = Some nested \<Longrightarrow>
         lookup data' ''retweeted_status'' = Some (snd (Tweet_deserializer nested))"
proof -
  from ok obtain data1 mk1 quoted_st data2 mk2 retweeted_st where
    r: "resolve_full_text data = Inr data1"
    and a1: "Tweet_args_before_quoted data1 = Inr mk1"
    and n1: "nested_status Tweet_deserializer data1 ''quoted_status'' = (Inr quoted_st, data2)"
    and a2: "Tweet_args_before_retweeted data2 (mk1 quoted_st) = Inr mk2"
    and n2: "nested_status Tweet_deserializer data2 ''retweeted_status'' = (Inr retweeted_st, data')"
    and t: "t = mk2 retweeted_st"
    by (rule Tweet_deserializer_Inr)
  from n1 have d2: "data2 = snd (nested_status Tweet_deserializer data1 ''quoted_status'')"
    by simp
  from n2 have d3: "data' = snd (nested_status Tweet_deserializer data2 ''retweeted_status'')"
    by simp
  from a1 obtain d c i f s a b e uj u co p q where
    d: "data1 = JObj d" and f: "map_of d ''full_text'' = Some f"
    and mk1: "mk1 = Tweet c i f s a b e u co p q
            (case map_of d ''quoted_status_id'' of None \<Rightarrow> JNull | Some x \<Rightarrow> x)"
    by (rule Tweet_args_before_quoted_Inr)
  from a2 obtain d2' rc fc ent fav rt lang where
    mk2: "mk2 = mk1 quoted_st rc fc ent fav rt
             (case map_of d2' ''possibly_sensitive'' of None \<Rightarrow> JNull | Some x \<Rightarrow> x) lang"
    by (rule Tweet_args_before_retweeted_Inr)
  from t mk2 mk1 have "full_text t = f" by simp
  with d f show "lookup data' ''full_text'' = Some (full_text t)"
    unfolding d3 d2 by (simp add: lookup_nested_status_other)
  {
    assume "lookup data ''quoted_status'' = Some nested"
    with lookup_resolve_full_text [OF r, of "''quoted_status''"]
    have "lookup data1 ''quoted_status'' = Some nested" by simp
    then show "lookup data' ''quoted_status'' = Some (snd (Tweet_deserializer nested))"
      unfolding d3 d2 by (simp add: lookup_nested_status_other lookup_nested_status_present)
  }
  {
    assume "lookup data ''retweeted_status'' = Some nested"
    with lookup_resolve_full_text [OF r, of "''retweeted_status''"]
    have "lookup data1 ''retweeted_status'' = Some nested" by simp
    then have "lookup data2 ''retweeted_status'' = Some nested"
      unfolding d2 by (simp add: lookup_nested_status_other)
    then show "lookup data' ''retweeted_status'' = Some (snd (Tweet_deserializer nested))"
      unfolding d3 by (simp add: lookup_nested_status_present)
  }
qed

text \<open>
  The claim that deserialization leaves the input mapping unchanged fails: a payload
  without the key \<^verbatim>\<open>full_text\<close> has the key after the call.
\<close>

theorem deserializer_pure_counterexample:
  "lookup (example_payload ''alice'' [(''truncated'', JBool False), (''text'', JStr ''hello'')])
     ''full_text'' = None
   \<and> lookup (snd (Tweet_deserializer
        (example_payload ''alice'' [(''truncated'', JBool False), (''text'', JStr ''hello'')])))
     ''full_text'' = Some (JStr ''hello'')
   \<and> snd (Tweet_deserializer
        (example_payload ''alice'' [(''truncated'', JBool False), (''text'', JStr ''hello'')]))
     \<noteq> example_payload ''alice'' [(''truncated'', JBool False), (''text'', JStr ''hello'')]"
  by (simp add: example_plain) (simp add: example_payload_def)

text \<open>
  Claim C4, amended. \<^verbatim>\<open>Tweet.deserializer\<close> writes into its input. It leaves the input
  unchanged when every post payload in it has the key \<^verbatim>\<open>full_text\<close>, and when the
  resolution of \<^verbatim>\<open>full_text\<close> raises: the call then raises that exception. When the payload
  is a dictionary and the resolution does not raise, the payload has the key \<^verbatim>\<open>full_text\<close>
  after the call, holding the value that the chain selects, whether the call then
  returns or raises. After a call that returns a post, \<^verbatim>\<open>full_text\<close> holds the \<^verbatim>\<open>full_text\<close>
  of the post, and each nested payload that was present under \<^verbatim>\<open>quoted_status\<close> or
  \<^verbatim>\<open>retweeted_status\<close> is as the recursive call on it leaves it. In every case the keys other
  than these three keep their value, among them \<^verbatim>\<open>user\<close> and \<^verbatim>\<open>entities\<close>, which the
  deserializers of the other entities read; a key \<^verbatim>\<open>full_text\<close> that was present keeps its
  value, one that was missing stays missing or holds the value of the chain; and a
  nested payload is as it was or as the recursive call leaves it.
\<close>

theorem Tweet_deserializer_effect:
  "(has_full_text_everywhere data \<longrightarrow> snd (Tweet_deserializer data) = data)
   \<and> (resolve_full_text data = Inl e \<longrightarrow> Tweet_deserializer data = (Inl e, data))
   \<and> (resolve_full_text (JObj d) = Inr data1 \<longrightarrow>
        (\<exists>v. full_text_source (JObj d) = Some v
           \<and> lookup (snd (Tweet_deserializer (JObj d))) ''full_text'' = Some v))
   \<and> (Tweet_deserializer data = (Inr t, data') \<longrightarrow>
        lookup data' ''full_text'' = Some (full_text t)
        \<and> (\<forall>k nested. (k = ''quoted_status'' \<or> k = ''retweeted_status'')
              \<and> lookup data k = Some nested \<longrightarrow>
              lookup data' k = Some (snd (Tweet_deserializer nested))))
   \<and> (\<forall>k. k \<noteq> ''full_text'' \<and> k \<noteq> ''quoted_status'' \<and> k \<noteq> ''retweeted_status'' \<longrightarrow>
          lookup (snd (Tweet_deserializer data)) k = lookup data k)
   \<and> (lookup data ''full_text'' \<noteq> None \<longrightarrow>
          lookup (snd (Tweet_deserializer data)) ''full_text'' = lookup data ''full_text'')
   \<and> (lookup data ''full_text'' = None \<longrightarrow>
          lookup (snd (Tweet_deserializer data)) ''full_text'' = None
          \<or> lookup (snd (Tweet_deserializer data)) ''full_text'' = full_text_source data)
   \<and> (\<forall>k. k = ''quoted_status'' \<or> k = ''retweeted_status'' \<longrightarrow>
          lookup (snd (Tweet_deserializer data)) k = lookup data k
          \<or> (\<exists>nested. lookup data k = Some nested
                \<and> lookup (snd (Tweet_deserializer data)) k
                    = Some (snd (Tweet_deserializer nested))))"
proof (intro conjI allI impI)
  assume "has_full_text_everywhere data"
  then show "snd (Tweet_deserializer data) = data"
    by (rule Tweet_deserializer_unchanged)
next
  assume "resolve_full_text data = Inl e"
  then show "Tweet_deserializer data = (Inl e, data)"
    by (rule Tweet_deserializer_raises)
next
  assume "resolve_full_text (JObj d) = Inr data1"
  then show "\<exists>v. full_text_source (JObj d) = Some v
      \<and> lookup (snd (Tweet_deserializer (JObj d))) ''full_text'' = Some v"
    by (rule full_text_written)
next
  assume "Tweet_deserializer data = (Inr t, data')"
  then show "lookup data' ''full_text'' = Some (full_text t)"
    by (rule accepted_state(1))
next
  fix k nested
  assume "Tweet_deserializer data = (Inr t, data')"
    and "(k = ''quoted_status'' \<or> k = ''retweeted_status'') \<and> lookup data k = Some nested"
  then show "lookup data' k = Some (snd (Tweet_deserializer nested))"
    by (auto dest: accepted_state(2,3))
next
  fix k
  assume "k \<noteq> ''full_text'' \<and> k \<noteq> ''quoted_status'' \<and> k \<noteq> ''retweeted_status''"
  with touched_state [of data k] show "lookup (snd (Tweet_deserializer data)) k = lookup data k"
    by (simp add: touched_def)
next
  assume "lookup data ''full_text'' \<noteq> None"
  with touched_state [of data "''full_text''"]
  show "lookup (snd (Tweet_deserializer data)) ''full_text'' = lookup data ''full_text''"
    by (simp add: touched_def)
next
  assume "lookup data ''full_text'' = None"
  with touched_state [of data "''full_text''"]
  show "lookup (snd (Tweet_deserializer data)) ''full_text'' = None
      \<or> lookup (snd (Tweet_deserializer data)) ''full_text'' = full_text_source data"
    by (auto simp: touched_def)
next
  fix k
  assume "k = ''quoted_status'' \<or> k = ''retweeted_status''"
  with touched_state [of data k]
  show "lookup (snd (Tweet_deserializer data)) k = lookup data k
      \<or> (\<exists>nested. lookup data k = Some nested
            \<and> lookup (snd (Tweet_deserializer data)) k = Some (snd (Tweet_deserializer nested)))"
    by (auto simp: touched_def)
qed

theorem Tweet_deserializer_effect_witness:
  "has_full_text_everywhere
     (example_payload ''alice'' [(''full_text'', JStr ''long''), (''text'', JStr ''short'')])
   \<and> snd (Tweet_deserializer
        (example_payload ''alice'' [(''full_text'', JStr ''long''), (''text'', JStr ''short'')]))
     = example_payload ''alice'' [(''full_text'', JStr ''long''), (''text'', JStr ''short'')]
   \<and> Tweet_deserializer (JObj [(''text'', JStr ''hello'')])
     = (Inl (KeyError ''truncated''), JObj [(''text'', JStr ''hello'')])
   \<and> lookup (snd (Tweet_deserializer
        (JObj [(''truncated'', JBool False), (''text'', JStr ''hello'')]))) ''full_text''
     = Some (JStr ''hello'')
   \<and> lookup (snd (Tweet_deserializer
        (example_payload ''alice'' [(''truncated'', JBool False), (''text'', JStr ''hello'')])))
     ''full_text'' = Some (JStr ''hello'')
   \<and> lookup (snd (Tweet_deserializer
        (example_payload ''carol'' [(''truncated'', JBool False), (''text'', JStr ''RT short''),
          (''retweeted_status'',
            example_payload ''bob'' [(''truncated'', JBool True), (''text'', JStr ''short''),
              (''extended_tweet'', JObj [(''full_text'', JStr ''long'')])])])))
     ''retweeted_status''
     = Some (example_payload ''bob'' [(''truncated'', JBool True), (''text'', JStr ''short''),
              (''extended_tweet'', JObj [(''full_text'', JStr ''long'')]),
              (''full_text'', JStr ''long'')])
   \<and> lookup (snd (Tweet_deserializer
        (example_payload ''alice'' [(''truncated'', JBool False), (''text'', JStr ''hello'')])))
     ''text'' = Some (JStr ''hello'')"
proof -
  let ?full = "example_payload ''alice'' [(''full_text'', JStr ''long''), (''text'', JStr ''short'')]"
  let ?plain = "example_payload ''alice'' [(''truncated'', JBool False), (''text'', JStr ''hello'')]"
  let ?inner = "example_payload ''bob'' [(''truncated'', JBool True), (''text'', JStr ''short''),
              (''extended_tweet'', JObj [(''full_text'', JStr ''long'')])]"
  let ?reshare = "example_payload ''carol'' [(''truncated'', JBool False),
      (''text'', JStr ''RT short''), (''retweeted_status'', ?inner)]"
  have h: "has_full_text_everywhere ?full"
    by (simp add: has_full_text_everywhere.simps example_payload_def)
  have t: "lookup ?plain ''text'' = Some (JStr ''hello'')"
    by (simp add: example_payload_def)
  have n: "lookup ?reshare ''retweeted_status'' = Some ?inner"
    by (simp add: example_payload_def)
  from Tweet_deserializer_effect [of ?full]
  have 1: "snd (Tweet_deserializer ?full) = ?full"
    using h by simp
  from Tweet_deserializer_effect [of "JObj [(''text'', JStr ''hello'')]" "KeyError ''truncated''"]
  have 2: "Tweet_deserializer (JObj [(''text'', JStr ''hello'')])
     = (Inl (KeyError ''truncated''), JObj [(''text'', JStr ''hello'')])"
    using example_no_source by simp
  from Tweet_deserializer_effect [of _ _ "[(''truncated'', JBool False), (''text'', JStr ''hello'')]"
      "JObj [(''truncated'', JBool False), (''text'', JStr ''hello''),
            (''full_text'', JStr ''hello'')]"]
  have 3: "lookup (snd (Tweet_deserializer
        (JObj [(''truncated'', JBool False), (''text'', JStr ''hello'')]))) ''full_text''
     = Some (JStr ''hello'')"
    using example_resolution by (simp add: full_text_source_def)
  from Tweet_deserializer_effect [of ?plain _ _ _ "example_tweet ''alice'' ''hello'' None None"
      "snd (Tweet_deserializer ?plain)"]
  have 4: "lookup (snd (Tweet_deserializer ?plain)) ''full_text'' = Some (JStr ''hello'')"
    and 5: "lookup (snd (Tweet_deserializer ?plain)) ''text'' = Some (JStr ''hello'')"
    using example_plain t by (simp_all add: example_tweet_def)
  from Tweet_deserializer_effect [of ?reshare _ _ _
      "example_tweet ''carol'' ''long'' None (Some (example_tweet ''bob'' ''long'' None None))"
      "snd (Tweet_deserializer ?reshare)"]
  have 6: "lookup (snd (Tweet_deserializer ?reshare)) ''retweeted_status''
      = Some (snd (Tweet_deserializer ?inner))"
    using example_reshare n by simp
  from h 1 2 3 4 5 6 example_truncated show ?thesis by simp
qed

section \<open>Missing keys\<close>

text \<open>
  \<^verbatim>\<open>KeyError\<close> is the spec's MissingField. A call decides a condition when it returns
  exactly if the condition holds, and raises \<^verbatim>\<open>KeyError\<close> when it does not return.
\<close>

fun is_KeyError :: "error \<Rightarrow> bool" where
  "is_KeyError (KeyError k) = True"
| "is_KeyError TypeError = False"
| "is_KeyError AttributeError = False"
| "is_KeyError (ApiError m) = False"

definition decides :: "error + 'a \<Rightarrow> bool \<Rightarrow> bool" where
  "decides r complete = (case r of Inr y \<Rightarrow> complete | Inl e \<Rightarrow> \<not> complete \<and> is_KeyError e)"

text \<open>
  The required keys of an entity are the keys that its deserializer reads with a
  subscript, in the order of the constructor call. \<^verbatim>\<open>profile_banner_url\<close> is read with
  \<^verbatim>\<open>get\<close> and is not among them.
\<close>

definition has_keys :: "json \<Rightarrow> string list \<Rightarrow> bool" where
  "has_keys data ks = list_all (\<lambda>k. lookup data k \<noteq> None) ks"

definition TweetUser_required :: "string list" where
  "TweetUser_required =
     [''id'', ''name'', ''screen_name'', ''location'', ''url'', ''description'', ''protected'',
      ''verified'', ''followers_count'', ''friends_count'', ''listed_count'',
      ''favourites_count'', ''statuses_count'', ''created_at'', ''profile_image_url_https'',
      ''default_profile'', ''default_profile_image'', ''withheld_in_countries'']"

definition Hashtag_required :: "string list" where
  "Hashtag_required = [''indices'', ''text'']"

definition Url_required :: "string list" where
  "Url_required = [''display_url'', ''expanded_url'', ''indices'', ''url'']"

definition UserMention_required :: "string list" where
  "UserMention_required = [''id'', ''indices'', ''name'', ''screen_name'']"

definition Symbol_required :: "string list" where
  "Symbol_required = [''indices'', ''text'']"

text \<open>
  \<^verbatim>\<open>tuple(data['indices'])\<close> goes through the value of the key: the value, when the key is
  present, is one that Python iterates.
\<close>

definition iterable :: "json option \<Rightarrow> bool" where
  "iterable v = (case v of None \<Rightarrow> True | Some x \<Rightarrow> (case py_iter x of Inr xs \<Rightarrow> True | Inl e \<Rightarrow> False))"

lemma decides_Inr [simp]: "decides (Inr y) P \<longleftrightarrow> P"
  by (simp add: decides_def)

lemma decides_Inl [simp]: "decides (Inl e) P \<longleftrightarrow> \<not> P \<and> is_KeyError e"
  by (simp add: decides_def)

lemma decides_bind_getitem:
  "decides (bindE (py_getitem (JObj d) k) f) P \<longleftrightarrow>
     (case map_of d k of None \<Rightarrow> \<not> P | Some v \<Rightarrow> decides (f v) P)"
  by (simp split: option.splits)

lemma decides_bind_get:
  "decides (bindE (py_get (JObj d) k) f) P \<longleftrightarrow>
     decides (f (case map_of d k of None \<Rightarrow> JNull | Some v \<Rightarrow> v)) P"
  by simp

lemma decides_bind_getitem_iter:
  "iterable (map_of d k) \<Longrightarrow>
   decides (bindE (bindE (py_getitem (JObj d) k) py_iter) f) P \<longleftrightarrow>
     (case map_of d k of None \<Rightarrow> \<not> P | Some v \<Rightarrow> (\<forall>xs. py_iter v = Inr xs \<longrightarrow> decides (f xs) P))"
  by (auto simp: iterable_def split: option.splits sum.splits)

lemma bindE_InlE:
  assumes "bindE m f = Inl e"
  obtains "m = Inl e" | x where "m = Inr x" "f x = Inl e"
  using assms by (cases m) auto

lemma py_getitem_obj_Inl: "py_getitem (JObj d) k = Inl e \<longleftrightarrow> map_of d k = None \<and> e = KeyError k"
  by (auto split: option.splits)

lemma py_getitem_obj_Inr: "py_getitem (JObj d) k = Inr v \<longleftrightarrow> map_of d k = Some v"
  by (auto split: option.splits)

lemma decidesI:
  assumes "\<And>y. r = Inr y \<Longrightarrow> P" and "\<And>e. r = Inl e \<Longrightarrow> \<not> P \<and> is_KeyError e"
  shows "decides r P"
  using assms by (cases r) auto

lemma decides_TweetUser:
  "decides (TweetUser_deserializer (JObj d)) (has_keys (JObj d) TweetUser_required)"
proof (rule decidesI)
  fix u
  assume "TweetUser_deserializer (JObj d) = Inr u"
  then show "has_keys (JObj d) TweetUser_required"
    unfolding TweetUser_deserializer_def
    by (elim bindE_InrE) (simp add: has_keys_def TweetUser_required_def py_getitem_obj_Inr del: py_getitem.simps)
next
  fix e
  assume "TweetUser_deserializer (JObj d) = Inl e"
  then show "\<not> has_keys (JObj d) TweetUser_required \<and> is_KeyError e"
    unfolding TweetUser_deserializer_def
    by (elim bindE_InlE)
      (simp_all add: has_keys_def TweetUser_required_def py_getitem_obj_Inl del: py_getitem.simps)
qed


lemma decides_Hashtag:
  assumes "iterable (map_of d ''indices'')"
  shows "decides (Hashtag_deserializer (JObj d)) (has_keys (JObj d) Hashtag_required)"
proof (rule decidesI)
  fix y
  assume "Hashtag_deserializer (JObj d) = Inr y"
  then show "has_keys (JObj d) Hashtag_required"
    unfolding Hashtag_deserializer_def
    by (elim bindE_InrE) (simp add: has_keys_def Hashtag_required_def py_getitem_obj_Inr del: py_getitem.simps)
next
  fix e
  assume "Hashtag_deserializer (JObj d) = Inl e"
  then show "\<not> has_keys (JObj d) Hashtag_required \<and> is_KeyError e"
    unfolding Hashtag_deserializer_def using assms
    by (elim bindE_InlE)
      (simp_all add: has_keys_def Hashtag_required_def py_getitem_obj_Inl py_getitem_obj_Inr
        iterable_def del: py_getitem.simps)
qed

lemma decides_Symbol:
  assumes "iterable (map_of d ''indices'')"
  shows "decides (Symbol_deserializer (JObj d)) (has_keys (JObj d) Symbol_required)"
proof (rule decidesI)
  fix y
  assume "Symbol_deserializer (JObj d) = Inr y"
  then show "has_keys (JObj d) Symbol_required"
    unfolding Symbol_deserializer_def
    by (elim bindE_InrE) (simp add: has_keys_def Symbol_required_def py_getitem_obj_Inr del: py_getitem.simps)
next
  fix e
  assume "Symbol_deserializer (JObj d) = Inl e"
  then show "\<not> has_keys (JObj d) Symbol_required \<and> is_KeyError e"
    unfolding Symbol_deserializer_def using assms
    by (elim bindE_InlE)
      (simp_all add: has_keys_def Symbol_required_def py_getitem_obj_Inl py_getitem_obj_Inr
        iterable_def del: py_getitem.simps)
qed

lemma decides_Url:
  assumes "iterable (map_of d ''indices'')"
  shows "decides (Url_deserializer (JObj d)) (has_keys (JObj d) Url_required)"
proof (rule decidesI)
  fix y
  assume "Url_deserializer (JObj d) = Inr y"
  then show "has_keys (JObj d) Url_required"
    unfolding Url_deserializer_def
    by (elim bindE_InrE) (simp add: has_keys_def Url_required_def py_getitem_obj_Inr del: py_getitem.simps)
next
  fix e
  assume "Url_deserializer (JObj d) = Inl e"
  then show "\<not> has_keys (JObj d) Url_required \<and> is_KeyError e"
    unfolding Url_deserializer_def using assms
    by (elim bindE_InlE)
      (simp_all add: has_keys_def Url_required_def py_getitem_obj_Inl py_getitem_obj_Inr
        iterable_def del: py_getitem.simps)
qed

lemma decides_UserMention:
  assumes "iterable (map_of d ''indices'')"
  shows "decides (UserMention_deserializer (JObj d)) (has_keys (JObj d) UserMention_required)"
proof (rule decidesI)
  fix y
  assume "UserMention_deserializer (JObj d) = Inr y"
  then show "has_keys (JObj d) UserMention_required"
    unfolding UserMention_deserializer_def
    by (elim bindE_InrE) (simp add: has_keys_def UserMention_required_def py_getitem_obj_Inr del: py_getitem.simps)
next
  fix e
  assume "UserMention_deserializer (JObj d) = Inl e"
  then show "\<not> has_keys (JObj d) UserMention_required \<and> is_KeyError e"
    unfolding UserMention_deserializer_def using assms
    by (elim bindE_InlE)
      (simp_all add: has_keys_def UserMention_required_def py_getitem_obj_Inl py_getitem_obj_Inr
        iterable_def del: py_getitem.simps)
qed

text \<open>
  The shape of an \<^verbatim>\<open>entities\<close> record: under each of its four keys, when present, a value
  that Python iterates and whose items are dictionaries with iterable \<^verbatim>\<open>indices\<close>. The
  record is complete when the four keys are present and every item has the required
  keys of its kind.
\<close>

fun item_shape :: "json \<Rightarrow> bool" where
  "item_shape (JObj d) = iterable (map_of d ''indices'')"
| "item_shape JNull = False"
| "item_shape (JBool b) = False"
| "item_shape (JInt n) = False"
| "item_shape (JStr s) = False"
| "item_shape (JList xs) = False"

definition shape_items :: "json option \<Rightarrow> bool" where
  "shape_items v =
     (case v of
        None \<Rightarrow> True
      | Some x \<Rightarrow> (case py_iter x of Inl e \<Rightarrow> False | Inr xs \<Rightarrow> list_all item_shape xs))"

definition complete_items :: "string list \<Rightarrow> json option \<Rightarrow> bool" where
  "complete_items required v =
     (case v of
        None \<Rightarrow> False
      | Some x \<Rightarrow>
          (case py_iter x of
             Inl e \<Rightarrow> False
           | Inr xs \<Rightarrow> list_all (\<lambda>item. has_keys item required) xs))"

definition shape_entities :: "json \<Rightarrow> bool" where
  "shape_entities data =
     (shape_items (lookup data ''hashtags'') \<and> shape_items (lookup data ''urls'')
      \<and> shape_items (lookup data ''user_mentions'') \<and> shape_items (lookup data ''symbols''))"

definition complete_entities :: "json \<Rightarrow> bool" where
  "complete_entities data =
     (complete_items Hashtag_required (lookup data ''hashtags'')
      \<and> complete_items Url_required (lookup data ''urls'')
      \<and> complete_items UserMention_required (lookup data ''user_mentions'')
      \<and> complete_items Symbol_required (lookup data ''symbols''))"

lemma decides_bindE:
  assumes "decides m P" and "\<And>x. m = Inr x \<Longrightarrow> decides (f x) Q"
  shows "decides (bindE m f) (P \<and> Q)"
  using assms by (cases m) auto

lemma decides_mapE:
  assumes "list_all item_shape xs"
    and "\<And>d. iterable (map_of d ''indices'') \<Longrightarrow> decides (f (JObj d)) (has_keys (JObj d) required)"
  shows "decides (mapE f xs) (list_all (\<lambda>item. has_keys item required) xs)"
  using assms(1)
proof (induction xs)
  case Nil
  show ?case by simp
next
  case (Cons x xs)
  then obtain d where x: "x = JObj d" and it: "iterable (map_of d ''indices'')"
    by (cases x) auto
  from Cons have rest: "decides (mapE f xs) (list_all (\<lambda>item. has_keys item required) xs)"
    by simp
  have "decides (mapE f (x # xs))
      (has_keys x required \<and> (list_all (\<lambda>item. has_keys item required) xs \<and> True))"
    unfolding mapE.simps
    by (intro decides_bindE) (use x it rest assms(2) in simp_all)
  then show ?case by simp
qed

lemma decides_comprehension:
  assumes "shape_items (map_of d k)"
    and "\<And>d. iterable (map_of d ''indices'') \<Longrightarrow> decides (f (JObj d)) (has_keys (JObj d) required)"
  shows "decides (comprehension f (JObj d) k) (complete_items required (map_of d k))"
proof (cases "map_of d k")
  case None
  then show ?thesis by (simp add: comprehension_def complete_items_def)
next
  case (Some x)
  with assms(1) obtain xs where xs: "py_iter x = Inr xs" and sh: "list_all item_shape xs"
    by (auto simp: shape_items_def split: sum.splits)
  from decides_mapE [OF sh assms(2)] Some xs show ?thesis
    by (simp add: comprehension_def complete_items_def)
qed

lemma decides_Entities:
  assumes "shape_entities (JObj d)"
  shows "decides (Entities_deserializer (JObj d)) (complete_entities (JObj d))"
proof -
  from assms have sh: "shape_items (map_of d ''hashtags'')" "shape_items (map_of d ''urls'')"
    "shape_items (map_of d ''user_mentions'')" "shape_items (map_of d ''symbols'')"
    by (simp_all add: shape_entities_def)
  have "decides (Entities_deserializer (JObj d))
     (complete_items Hashtag_required (map_of d ''hashtags'')
      \<and> (complete_items Url_required (map_of d ''urls'')
      \<and> (complete_items UserMention_required (map_of d ''user_mentions'')
      \<and> (complete_items Symbol_required (map_of d ''symbols'') \<and> True))))"
    unfolding Entities_deserializer_def
    by (intro decides_bindE decides_comprehension sh decides_Hashtag decides_Url
        decides_UserMention decides_Symbol) simp_all
  then show ?thesis by (simp add: complete_entities_def)
qed


text \<open>
  A value that is a dictionary when the key is present. The keys that the resolution of
  \<^verbatim>\<open>full_text\<close> needs: \<^verbatim>\<open>full_text\<close>, or else \<^verbatim>\<open>truncated\<close> and the key of the source that the
  chain selects.
\<close>

fun is_obj :: "json option \<Rightarrow> bool" where
  "is_obj (Some (JObj d)) = True"
| "is_obj (Some JNull) = False"
| "is_obj (Some (JBool b)) = False"
| "is_obj (Some (JInt n)) = False"
| "is_obj (Some (JStr s)) = False"
| "is_obj (Some (JList xs)) = False"
| "is_obj None = True"

definition text_keys_present :: "json \<Rightarrow> bool" where
  "text_keys_present data =
     (lookup data ''full_text'' \<noteq> None
      \<or> (lookup data ''truncated'' \<noteq> None \<and> full_text_source data \<noteq> None))"

lemma is_obj_Some: "is_obj (Some y) \<longleftrightarrow> (\<exists>d. y = JObj d)"
  by (cases y) simp_all

lemma is_obj_cases:
  assumes "is_obj v"
  obtains "v = None" | d where "v = Some (JObj d)"
  using assms by (cases v rule: is_obj.cases) auto

lemma decides_resolve_full_text:
  assumes ext: "is_obj (map_of d ''extended_tweet'')"
    and rt: "is_obj (map_of d ''retweeted_status'')"
    and rt_ext: "\<And>r. map_of d ''retweeted_status'' = Some r \<Longrightarrow> is_obj (lookup r ''extended_tweet'')"
  shows "decides (resolve_full_text (JObj d)) (text_keys_present (JObj d))"
proof (cases "map_of d ''full_text''")
  case (Some v)
  then show ?thesis by (simp add: resolve_full_text_def text_keys_present_def)
next
  case None
  note defs = resolve_full_text_def text_keys_present_def full_text_source_def
  show ?thesis
  proof (cases "map_of d ''truncated''")
    case no: None
    with None show ?thesis by (simp add: defs)
  next
    case (Some flag)
    show ?thesis
    proof (cases "truthy flag \<and> map_of d ''extended_tweet'' \<noteq> None")
      case True
      with ext obtain e where e: "map_of d ''extended_tweet'' = Some (JObj e)"
        by (auto simp: is_obj_Some)
      with True None Some show ?thesis
        by (cases "map_of e ''full_text''") (simp_all add: defs)
    next
      case False
      from rt show ?thesis
      proof (cases rule: is_obj_cases)
        case 1
        with False None Some show ?thesis
          by (cases "map_of d ''text''") (auto simp: defs)
      next
        case (2 r)
        from rt_ext [OF 2] show ?thesis
        proof (cases rule: is_obj_cases)
          case 1
          with 2 False None Some show ?thesis
            by (cases "map_of d ''text''") (auto simp: defs)
        next
          case (2 e)
          with \<open>map_of d ''retweeted_status'' = Some (JObj r)\<close> False None Some show ?thesis
            by (cases "map_of e ''full_text''") (auto simp: defs)
        qed
      qed
    qed
  qed
qed


text \<open>
  The keys of a post that the constructor call reads with a subscript, \<^verbatim>\<open>full_text\<close> apart;
  \<^verbatim>\<open>quoted_status_id\<close> and \<^verbatim>\<open>possibly_sensitive\<close> are read with \<^verbatim>\<open>get\<close>, and \<^verbatim>\<open>quoted_status\<close> and
  \<^verbatim>\<open>retweeted_status\<close> behind a test of presence.
\<close>

definition Tweet_required :: "string list" where
  "Tweet_required =
     [''created_at'', ''id'', ''source'', ''in_reply_to_status_id'', ''in_reply_to_user_id'',
      ''in_reply_to_screen_name'', ''user'', ''coordinates'', ''place'', ''is_quote_status'',
      ''retweet_count'', ''favorite_count'', ''entities'', ''favorited'', ''retweeted'',
      ''lang'']"

definition complete_user :: "json option \<Rightarrow> bool" where
  "complete_user v = (case v of None \<Rightarrow> False | Some u \<Rightarrow> has_keys u TweetUser_required)"

definition complete_entities_value :: "json option \<Rightarrow> bool" where
  "complete_entities_value v = (case v of None \<Rightarrow> False | Some e \<Rightarrow> complete_entities e)"

lemma decides_Inr_D: "decides r P \<Longrightarrow> r = Inr y \<Longrightarrow> P"
  by simp

lemma decides_Inl_D: "decides r P \<Longrightarrow> r = Inl e \<Longrightarrow> \<not> P \<and> is_KeyError e"
  by simp

lemma decides_Tweet_args_before_quoted:
  assumes user: "is_obj (map_of d ''user'')" and ft: "map_of d ''full_text'' \<noteq> None"
  shows "decides (Tweet_args_before_quoted (JObj d))
     (has_keys (JObj d)
        [''created_at'', ''id'', ''source'', ''in_reply_to_status_id'', ''in_reply_to_user_id'',
         ''in_reply_to_screen_name'', ''user'', ''coordinates'', ''place'', ''is_quote_status'']
      \<and> complete_user (map_of d ''user''))"
proof (rule decidesI)
  fix mk
  assume "Tweet_args_before_quoted (JObj d) = Inr mk"
  then show "has_keys (JObj d)
        [''created_at'', ''id'', ''source'', ''in_reply_to_status_id'', ''in_reply_to_user_id'',
         ''in_reply_to_screen_name'', ''user'', ''coordinates'', ''place'', ''is_quote_status'']
      \<and> complete_user (map_of d ''user'')"
    unfolding Tweet_args_before_quoted_def using user
    by (elim bindE_InrE)
      (auto simp: has_keys_def complete_user_def py_getitem_obj_Inr is_obj_Some
        dest: decides_Inr_D [OF decides_TweetUser] simp del: py_getitem.simps)
next
  fix e
  assume "Tweet_args_before_quoted (JObj d) = Inl e"
  then show "\<not> (has_keys (JObj d)
        [''created_at'', ''id'', ''source'', ''in_reply_to_status_id'', ''in_reply_to_user_id'',
         ''in_reply_to_screen_name'', ''user'', ''coordinates'', ''place'', ''is_quote_status'']
      \<and> complete_user (map_of d ''user'')) \<and> is_KeyError e"
    unfolding Tweet_args_before_quoted_def using user ft
    by (elim bindE_InlE)
      (auto simp: has_keys_def complete_user_def py_getitem_obj_Inl py_getitem_obj_Inr
        is_obj_Some dest: decides_Inl_D [OF decides_TweetUser] simp del: py_getitem.simps)
qed

lemma decides_Tweet_args_before_retweeted:
  assumes ent: "is_obj (map_of d ''entities'')"
    and shape: "\<And>e. map_of d ''entities'' = Some e \<Longrightarrow> shape_entities e"
  shows "decides (Tweet_args_before_retweeted (JObj d) mk)
     (has_keys (JObj d)
        [''retweet_count'', ''favorite_count'', ''entities'', ''favorited'', ''retweeted'',
         ''lang'']
      \<and> complete_entities_value (map_of d ''entities''))"
proof (rule decidesI)
  fix mk2
  assume "Tweet_args_before_retweeted (JObj d) mk = Inr mk2"
  then show "has_keys (JObj d)
        [''retweet_count'', ''favorite_count'', ''entities'', ''favorited'', ''retweeted'',
         ''lang'']
      \<and> complete_entities_value (map_of d ''entities'')"
    unfolding Tweet_args_before_retweeted_def using ent shape
    by (elim bindE_InrE)
      (auto simp: has_keys_def complete_entities_value_def py_getitem_obj_Inr is_obj_Some
        dest: decides_Inr_D [OF decides_Entities] simp del: py_getitem.simps)
next
  fix e
  assume "Tweet_args_before_retweeted (JObj d) mk = Inl e"
  then show "\<not> (has_keys (JObj d)
        [''retweet_count'', ''favorite_count'', ''entities'', ''favorited'', ''retweeted'',
         ''lang'']
      \<and> complete_entities_value (map_of d ''entities'')) \<and> is_KeyError e"
    unfolding Tweet_args_before_retweeted_def using ent shape
    by (elim bindE_InlE)
      (auto simp: has_keys_def complete_entities_value_def py_getitem_obj_Inl
        py_getitem_obj_Inr is_obj_Some dest: decides_Inl_D [OF decides_Entities]
        simp del: py_getitem.simps)
qed

lemma decides_nested_status:
  assumes "\<And>c. map_of d k = Some c \<Longrightarrow> decides (fst (f c)) (Q c)"
  shows "decides (fst (nested_status f (JObj d) k))
     (case map_of d k of None \<Rightarrow> True | Some c \<Rightarrow> Q c)"
proof (cases "map_of d k")
  case None
  then show ?thesis by (simp add: nested_status_def)
next
  case (Some c)
  with assms [OF Some] show ?thesis
    by (cases "f c") (auto simp: nested_status_def split: sum.splits)
qed


text \<open>
  A post payload is complete when it has the keys of the resolution and of the
  constructor call, its author and its \<^verbatim>\<open>entities\<close> are complete, and every nested post
  that is present is complete. It has the expected shape when it is a dictionary in which
  \<^verbatim>\<open>user\<close>, \<^verbatim>\<open>entities\<close> and \<^verbatim>\<open>extended_tweet\<close>, when present, are dictionaries, the \<^verbatim>\<open>entities\<close>
  have their shape, and every nested post that is present has the expected shape.
\<close>

function complete_post :: "json \<Rightarrow> bool" where
  "complete_post data =
     (case data of
        JObj d \<Rightarrow>
          text_keys_present data \<and> has_keys data Tweet_required
          \<and> complete_user (map_of d ''user'')
          \<and> complete_entities_value (map_of d ''entities'')
          \<and> (case map_of d ''quoted_status'' of None \<Rightarrow> True | Some q \<Rightarrow> complete_post q)
          \<and> (case map_of d ''retweeted_status'' of None \<Rightarrow> True | Some r \<Rightarrow> complete_post r)
      | _ \<Rightarrow> False)"
  by pat_completeness auto
termination
  by (relation "measure size") (auto dest: size_map_of)

function well_shaped_post :: "json \<Rightarrow> bool" where
  "well_shaped_post data =
     (case data of
        JObj d \<Rightarrow>
          is_obj (map_of d ''user'') \<and> is_obj (map_of d ''entities'')
          \<and> (case map_of d ''entities'' of None \<Rightarrow> True | Some e \<Rightarrow> shape_entities e)
          \<and> is_obj (map_of d ''extended_tweet'')
          \<and> (case map_of d ''quoted_status'' of None \<Rightarrow> True | Some q \<Rightarrow> well_shaped_post q)
          \<and> (case map_of d ''retweeted_status'' of
                None \<Rightarrow> True | Some r \<Rightarrow> well_shaped_post r)
      | _ \<Rightarrow> False)"
  by pat_completeness auto
termination
  by (relation "measure size") (auto dest: size_map_of)

declare complete_post.simps [simp del] well_shaped_post.simps [simp del]

lemma complete_post_obj:
  "complete_post (JObj d) \<longleftrightarrow>
     text_keys_present (JObj d) \<and> has_keys (JObj d) Tweet_required
     \<and> complete_user (map_of d ''user'')
     \<and> complete_entities_value (map_of d ''entities'')
     \<and> (case map_of d ''quoted_status'' of None \<Rightarrow> True | Some q \<Rightarrow> complete_post q)
     \<and> (case map_of d ''retweeted_status'' of None \<Rightarrow> True | Some r \<Rightarrow> complete_post r)"
  by (subst complete_post.simps) simp

lemma well_shaped_post_obj:
  "well_shaped_post (JObj d) \<longleftrightarrow>
     is_obj (map_of d ''user'') \<and> is_obj (map_of d ''entities'')
     \<and> (case map_of d ''entities'' of None \<Rightarrow> True | Some e \<Rightarrow> shape_entities e)
     \<and> is_obj (map_of d ''extended_tweet'')
     \<and> (case map_of d ''quoted_status'' of None \<Rightarrow> True | Some q \<Rightarrow> well_shaped_post q)
     \<and> (case map_of d ''retweeted_status'' of None \<Rightarrow> True | Some r \<Rightarrow> well_shaped_post r)"
  by (subst well_shaped_post.simps) simp

lemma well_shaped_post_is_obj: "well_shaped_post data \<Longrightarrow> \<exists>d. data = JObj d"
  by (subst (asm) well_shaped_post.simps) (cases data; simp)

lemma resolve_full_text_obj:
  assumes "resolve_full_text (JObj d) = Inr data1"
  obtains d1 where "data1 = JObj d1" "map_of d1 ''full_text'' \<noteq> None"
    "\<And>k. k \<noteq> ''full_text'' \<Longrightarrow> map_of d1 k = map_of d k"
proof (cases "map_of d ''full_text''")
  case (Some v)
  with assms have "data1 = JObj d" by (simp add: resolve_full_text_def)
  with Some that show ?thesis by simp
next
  case None
  from resolve_full_text_sets [OF assms None]
  obtain v where "data1 = JObj (AList.update ''full_text'' v d)" ..
  with that show ?thesis by (simp add: update_conv')
qed

lemma nested_status_obj:
  obtains d2 where "snd (nested_status f (JObj d) k) = JObj d2"
    "\<And>k'. k' \<noteq> k \<Longrightarrow> map_of d2 k' = map_of d k'"
  using nested_status_state [of f "JObj d" k]
  by (auto simp: with_child_def update_conv')

lemma decides_Tweet_deserializer:
  assumes s0: "decides (resolve_full_text data) P0"
    and s1: "\<And>data1. resolve_full_text data = Inr data1 \<Longrightarrow>
        decides (Tweet_args_before_quoted data1) P1"
    and s2: "\<And>data1. resolve_full_text data = Inr data1 \<Longrightarrow>
        decides (fst (nested_status Tweet_deserializer data1 ''quoted_status'')) P2"
    and s3: "\<And>data1 mk. resolve_full_text data = Inr data1 \<Longrightarrow>
        decides (Tweet_args_before_retweeted
          (snd (nested_status Tweet_deserializer data1 ''quoted_status'')) mk) P3"
    and s4: "\<And>data1. resolve_full_text data = Inr data1 \<Longrightarrow>
        decides (fst (nested_status Tweet_deserializer
          (snd (nested_status Tweet_deserializer data1 ''quoted_status''))
          ''retweeted_status'')) P4"
  shows "decides (fst (Tweet_deserializer data)) (P0 \<and> P1 \<and> P2 \<and> P3 \<and> P4)"
proof (cases "resolve_full_text data")
  case (Inl e)
  with s0 show ?thesis by (subst Tweet_deserializer.simps) simp
next
  case (Inr data1)
  obtain r1 data2 where n1: "nested_status Tweet_deserializer data1 ''quoted_status'' = (r1, data2)"
    by (cases "nested_status Tweet_deserializer data1 ''quoted_status''")
  obtain r2 data3 where n2: "nested_status Tweet_deserializer data2 ''retweeted_status'' = (r2, data3)"
    by (cases "nested_status Tweet_deserializer data2 ''retweeted_status''")
  from s0 Inr have p0: P0 by simp
  from s2 [OF Inr] n1 have d2: "decides r1 P2" by simp
  from s3 [OF Inr] n1 have d3: "decides (Tweet_args_before_retweeted data2 mk) P3" for mk
    by simp
  from s4 [OF Inr] n1 n2 have d4: "decides r2 P4" by simp
  show ?thesis
  proof (cases "Tweet_args_before_quoted data1")
    case a1: (Inl e)
    with s1 [OF Inr] Inr show ?thesis by (subst Tweet_deserializer.simps) simp
  next
    case a1: (Inr mk1)
    with s1 [OF Inr] have p1: P1 by simp
    show ?thesis
    proof (cases r1)
      case r1: (Inl e)
      with d2 Inr a1 n1 show ?thesis
        by (subst Tweet_deserializer.simps) simp
    next
      case r1: (Inr quoted_st)
      with d2 have p2: P2 by simp
      show ?thesis
      proof (cases "Tweet_args_before_retweeted data2 (mk1 quoted_st)")
        case a2: (Inl e)
        with d3 [of "mk1 quoted_st"] Inr a1 n1 r1 show ?thesis
          by (subst Tweet_deserializer.simps) simp
      next
        case a2: (Inr mk2)
        with d3 [of "mk1 quoted_st"] have p3: P3 by simp
        show ?thesis
        proof (cases r2)
          case r2: (Inl e)
          with d4 Inr a1 n1 r1 a2 n2 show ?thesis
            by (subst Tweet_deserializer.simps) simp
        next
          case r2: (Inr retweeted_st)
          with d4 have p4: P4 by simp
          from Inr a1 n1 r1 a2 n2 r2 p0 p1 p2 p3 p4 show ?thesis
            by (subst Tweet_deserializer.simps) simp
        qed
      qed
    qed
  qed
qed


lemma has_keys_append: "has_keys data (ks @ ks') \<longleftrightarrow> has_keys data ks \<and> has_keys data ks'"
  by (simp add: has_keys_def)

lemma has_keys_cong_obj:
  "(\<And>k. k \<in> set ks \<Longrightarrow> map_of d1 k = map_of d k) \<Longrightarrow>
   has_keys (JObj d1) ks = has_keys (JObj d) ks"
  by (simp add: has_keys_def list_all_iff)

lemma decides_post:
  "well_shaped_post data \<Longrightarrow> decides (fst (Tweet_deserializer data)) (complete_post data)"
proof (induction data rule: measure_induct_rule [of size])
  case (less data)
  from less.prems obtain d where data: "data = JObj d"
    by (auto dest: well_shaped_post_is_obj)
  from less.prems data have
    user: "is_obj (map_of d ''user'')" and ent: "is_obj (map_of d ''entities'')"
    and shape: "\<And>e. map_of d ''entities'' = Some e \<Longrightarrow> shape_entities e"
    and ext: "is_obj (map_of d ''extended_tweet'')"
    and qs: "\<And>q. map_of d ''quoted_status'' = Some q \<Longrightarrow> well_shaped_post q"
    and rs: "\<And>r. map_of d ''retweeted_status'' = Some r \<Longrightarrow> well_shaped_post r"
    by (simp_all add: well_shaped_post_obj split: option.splits)
  have child: "decides (fst (Tweet_deserializer c)) (complete_post c)"
    if "map_of d k = Some c" "well_shaped_post c" for k c
    using that less.IH [of c] data by (auto dest: size_map_of)
  have rt: "is_obj (map_of d ''retweeted_status'')"
  proof (cases "map_of d ''retweeted_status''")
    case None
    then show ?thesis by simp
  next
    case (Some r)
    with rs [OF Some] show ?thesis by (auto dest: well_shaped_post_is_obj)
  qed
  have rt_ext: "is_obj (lookup r ''extended_tweet'')" if "map_of d ''retweeted_status'' = Some r" for r
  proof -
    from rs [OF that] obtain rd where "r = JObj rd" by (auto dest: well_shaped_post_is_obj)
    with rs [OF that] show ?thesis by (simp add: well_shaped_post_obj)
  qed
  let ?K1 = "[''created_at'', ''id'', ''source'', ''in_reply_to_status_id'',
    ''in_reply_to_user_id'', ''in_reply_to_screen_name'', ''user'', ''coordinates'', ''place'',
    ''is_quote_status'']"
  let ?K2 = "[''retweet_count'', ''favorite_count'', ''entities'', ''favorited'', ''retweeted'',
    ''lang'']"
  let ?P1 = "has_keys (JObj d) ?K1 \<and> complete_user (map_of d ''user'')"
  let ?P2 = "case map_of d ''quoted_status'' of None \<Rightarrow> True | Some q \<Rightarrow> complete_post q"
  let ?P3 = "has_keys (JObj d) ?K2 \<and> complete_entities_value (map_of d ''entities'')"
  let ?P4 = "case map_of d ''retweeted_status'' of None \<Rightarrow> True | Some r \<Rightarrow> complete_post r"
  have "decides (fst (Tweet_deserializer (JObj d)))
     (text_keys_present (JObj d) \<and> ?P1 \<and> ?P2 \<and> ?P3 \<and> ?P4)"
  proof (rule decides_Tweet_deserializer)
    show "decides (resolve_full_text (JObj d)) (text_keys_present (JObj d))"
      using ext rt rt_ext by (rule decides_resolve_full_text)
  next
    fix data1
    assume "resolve_full_text (JObj d) = Inr data1"
    then obtain d1 where d1: "data1 = JObj d1" "map_of d1 ''full_text'' \<noteq> None"
      and same: "\<And>k. k \<noteq> ''full_text'' \<Longrightarrow> map_of d1 k = map_of d k"
      by (rule resolve_full_text_obj) blast
    obtain d2 where d2: "snd (nested_status Tweet_deserializer (JObj d1) ''quoted_status'') = JObj d2"
      and same2: "\<And>k. k \<noteq> ''quoted_status'' \<Longrightarrow> map_of d2 k = map_of d1 k"
      by (rule nested_status_obj) blast
    have k1: "has_keys (JObj d1) ?K1 = has_keys (JObj d) ?K1"
      by (rule has_keys_cong_obj) (auto simp: same)
    have k2: "has_keys (JObj d2) ?K2 = has_keys (JObj d) ?K2"
      by (rule has_keys_cong_obj) (auto simp: same same2)
    from user same [of "''user''"] have "is_obj (map_of d1 ''user'')" by simp
    from decides_Tweet_args_before_quoted [OF this d1(2)] k1 same [of "''user''"] d1(1)
    show "decides (Tweet_args_before_quoted data1) ?P1" by simp
    have "decides (fst (nested_status Tweet_deserializer (JObj d1) ''quoted_status''))
       (case map_of d1 ''quoted_status'' of None \<Rightarrow> True | Some c \<Rightarrow> complete_post c)"
      by (rule decides_nested_status) (use child qs same [of "''quoted_status''"] in auto)
    with same [of "''quoted_status''"] d1(1)
    show "decides (fst (nested_status Tweet_deserializer data1 ''quoted_status'')) ?P2" by simp
    have e2: "map_of d2 ''entities'' = map_of d ''entities''"
      by (simp add: same same2)
    with ent shape have "is_obj (map_of d2 ''entities'')"
      "\<And>e. map_of d2 ''entities'' = Some e \<Longrightarrow> shape_entities e" by simp_all
    from decides_Tweet_args_before_retweeted [OF this] k2 e2 d1(1) d2
    show "decides (Tweet_args_before_retweeted
          (snd (nested_status Tweet_deserializer data1 ''quoted_status'')) mk) ?P3" for mk
      by simp
    have r2: "map_of d2 ''retweeted_status'' = map_of d ''retweeted_status''"
      by (simp add: same same2)
    have "decides (fst (nested_status Tweet_deserializer (JObj d2) ''retweeted_status''))
       (case map_of d2 ''retweeted_status'' of None \<Rightarrow> True | Some c \<Rightarrow> complete_post c)"
      by (rule decides_nested_status) (use child rs r2 in auto)
    with r2 d1(1) d2
    show "decides (fst (nested_status Tweet_deserializer
          (snd (nested_status Tweet_deserializer data1 ''quoted_status''))
          ''retweeted_status'')) ?P4" by simp
  qed
  moreover have "complete_post (JObj d) \<longleftrightarrow>
      (text_keys_present (JObj d) \<and> ?P1 \<and> ?P2 \<and> ?P3 \<and> ?P4)"
    by (auto simp: complete_post_obj Tweet_required_def has_keys_def)
  ultimately show ?case using data by simp
qed


lemma nested_status_Inr:
  assumes "nested_status f data k = (Inr x, data2)"
  shows "(lookup data k = None \<and> x = None)
    \<or> (\<exists>c t. lookup data k = Some c \<and> fst (f c) = Inr t \<and> x = Some t)"
proof (cases data)
  case (JObj d)
  with assms show ?thesis
    by (cases "map_of d k") (auto simp: nested_status_def split: sum.splits prod.splits)
qed (use assms in \<open>auto simp: nested_status_def split: sum.splits prod.splits if_splits\<close>)

lemma Tweet_deserializer_optional:
  assumes ok: "Tweet_deserializer data = (Inr t, data')"
  shows "(lookup data ''quoted_status_id'' = None \<longrightarrow> quoted_status_id t = JNull)
    \<and> (lookup data ''possibly_sensitive'' = None \<longrightarrow> possibly_sensitive t = JNull)
    \<and> (lookup data ''quoted_status'' = None \<longrightarrow> quoted_status t = None)
    \<and> (lookup data ''retweeted_status'' = None \<longrightarrow> retweeted_status t = None)
    \<and> (\<forall>q. lookup data ''quoted_status'' = Some q \<longrightarrow>
          (\<exists>qt. fst (Tweet_deserializer q) = Inr qt \<and> quoted_status t = Some qt))
    \<and> (\<forall>r. lookup data ''retweeted_status'' = Some r \<longrightarrow>
          (\<exists>rt. fst (Tweet_deserializer r) = Inr rt \<and> retweeted_status t = Some rt))"
proof -
  from ok obtain data1 mk1 quoted_st data2 mk2 retweeted_st where
    r: "resolve_full_text data = Inr data1"
    and a1: "Tweet_args_before_quoted data1 = Inr mk1"
    and n1: "nested_status Tweet_deserializer data1 ''quoted_status'' = (Inr quoted_st, data2)"
    and a2: "Tweet_args_before_retweeted data2 (mk1 quoted_st) = Inr mk2"
    and n2: "nested_status Tweet_deserializer data2 ''retweeted_status'' = (Inr retweeted_st, data')"
    and t: "t = mk2 retweeted_st"
    by (rule Tweet_deserializer_Inr)
  from a1 obtain d c i f s a b e uj u co p q where
    d: "data1 = JObj d"
    and mk1: "mk1 = Tweet c i f s a b e u co p q
            (case map_of d ''quoted_status_id'' of None \<Rightarrow> JNull | Some x \<Rightarrow> x)"
    by (rule Tweet_args_before_quoted_Inr)
  from a2 obtain d2 rc fc ent fav rt lang where
    d2: "data2 = JObj d2"
    and mk2: "mk2 = mk1 quoted_st rc fc ent fav rt
             (case map_of d2 ''possibly_sensitive'' of None \<Rightarrow> JNull | Some x \<Rightarrow> x) lang"
    by (rule Tweet_args_before_retweeted_Inr)
  have same: "lookup data1 k = lookup data k" if "k \<noteq> ''full_text''" for k
    using r that by (rule lookup_resolve_full_text)
  have same2: "lookup data2 k = lookup data1 k" if "k \<noteq> ''quoted_status''" for k
    using lookup_nested_status_other [OF that, of Tweet_deserializer data1] n1 by simp
  from t mk2 mk1 have fields: "quoted_status t = quoted_st" "retweeted_status t = retweeted_st"
    "quoted_status_id t = (case map_of d ''quoted_status_id'' of None \<Rightarrow> JNull | Some x \<Rightarrow> x)"
    "possibly_sensitive t = (case map_of d2 ''possibly_sensitive'' of None \<Rightarrow> JNull | Some x \<Rightarrow> x)"
    by simp_all
  from same [of "''quoted_status_id''"] d
  have 1: "map_of d ''quoted_status_id'' = lookup data ''quoted_status_id''" by simp
  from same [of "''possibly_sensitive''"] same2 [of "''possibly_sensitive''"] d2
  have 2: "map_of d2 ''possibly_sensitive'' = lookup data ''possibly_sensitive''" by simp
  from nested_status_Inr [OF n1] same [of "''quoted_status''"]
  have 3: "(lookup data ''quoted_status'' = None \<and> quoted_st = None)
    \<or> (\<exists>c t. lookup data ''quoted_status'' = Some c \<and> fst (Tweet_deserializer c) = Inr t
          \<and> quoted_st = Some t)" by simp
  from nested_status_Inr [OF n2] same [of "''retweeted_status''"] same2 [of "''retweeted_status''"]
  have 4: "(lookup data ''retweeted_status'' = None \<and> retweeted_st = None)
    \<or> (\<exists>c t. lookup data ''retweeted_status'' = Some c \<and> fst (Tweet_deserializer c) = Inr t
          \<and> retweeted_st = Some t)" by simp
  from fields 1 2 3 4 show ?thesis by auto
qed

lemma TweetUser_optional:
  assumes "TweetUser_deserializer (JObj d) = Inr u" and "map_of d ''profile_banner_url'' = None"
  shows "TweetUser.profile_banner_url u = JNull"
  using assms unfolding TweetUser_deserializer_def
  by (elim bindE_InrE) auto

text \<open>
  Payloads for the concrete instances: a post without the key \<^verbatim>\<open>lang\<close>.
\<close>

lemma example_well_shaped:
  "well_shaped_post (example_payload handle [(''truncated'', JBool False), (''text'', JStr txt)])"
  by (simp add: well_shaped_post.simps example_payload_def example_user_payload_def
      shape_entities_def shape_items_def)

lemma example_complete:
  "complete_post (example_payload handle [(''truncated'', JBool False), (''text'', JStr txt)])"
  by (simp add: complete_post.simps example_payload_def example_user_payload_def
      text_keys_present_def full_text_source_def has_keys_def Tweet_required_def
      complete_user_def TweetUser_required_def complete_entities_value_def
      complete_entities_def complete_items_def)

definition example_without_lang :: json where
  "example_without_lang =
     JObj [(''created_at'', JStr ''Wed Oct 10 20:19:24 +0000 2018''), (''id'', JInt 1),
       (''source'', JStr ''web''), (''in_reply_to_status_id'', JNull),
       (''in_reply_to_user_id'', JNull), (''in_reply_to_screen_name'', JNull),
       (''user'', example_user_payload ''alice''), (''coordinates'', JNull), (''place'', JNull),
       (''is_quote_status'', JBool False), (''retweet_count'', JInt 0),
       (''favorite_count'', JInt 0),
       (''entities'', JObj [(''hashtags'', JList []), (''urls'', JList []),
          (''user_mentions'', JList []), (''symbols'', JList [])]),
       (''favorited'', JBool False), (''retweeted'', JBool False),
       (''full_text'', JStr ''hello'')]"

lemma example_without_lang_shape: "well_shaped_post example_without_lang"
  by (simp add: well_shaped_post.simps example_without_lang_def example_user_payload_def
      shape_entities_def shape_items_def)

lemma example_without_lang_incomplete: "\<not> complete_post example_without_lang"
  by (simp add: complete_post.simps example_without_lang_def has_keys_def Tweet_required_def)

lemma example_without_lang_raises:
  "fst (Tweet_deserializer example_without_lang) = Inl (KeyError ''lang'')"
  by (simp add: Tweet_deserializer.simps resolve_full_text_def Tweet_args_before_quoted_def
      Tweet_args_before_retweeted_def nested_status_def Entities_deserializer_def
      comprehension_def example_without_lang_def example_user_deserialized)

text \<open>
  A call does not fail with MissingField exactly when a required key is absent, for
  every payload. A hashtag payload whose \<^verbatim>\<open>indices\<close> hold \<^verbatim>\<open>null\<close> and whose \<^verbatim>\<open>text\<close> is absent
  fails with \<^verbatim>\<open>TypeError\<close>, raised by \<^verbatim>\<open>tuple(None)\<close> before \<^verbatim>\<open>text\<close> is read; with \<^verbatim>\<open>text\<close> present
  the call fails as well, with no required key absent. A post payload without
  \<^verbatim>\<open>created_at\<close> whose \<^verbatim>\<open>extended_tweet\<close> holds \<^verbatim>\<open>null\<close> fails with \<^verbatim>\<open>TypeError\<close> in the resolution
  of \<^verbatim>\<open>full_text\<close>.
\<close>

theorem missing_field_counterexample:
  "lookup (JObj [(''indices'', JNull)]) ''text'' = None
   \<and> Hashtag_deserializer (JObj [(''indices'', JNull)]) = Inl TypeError
   \<and> has_keys (JObj [(''indices'', JNull), (''text'', JStr ''x'')]) Hashtag_required
   \<and> Hashtag_deserializer (JObj [(''indices'', JNull), (''text'', JStr ''x'')]) = Inl TypeError
   \<and> lookup (JObj [(''truncated'', JBool True), (''extended_tweet'', JNull)]) ''created_at'' = None
   \<and> fst (Tweet_deserializer (JObj [(''truncated'', JBool True), (''extended_tweet'', JNull)]))
     = Inl TypeError"
  by (simp add: Hashtag_deserializer_def has_keys_def Hashtag_required_def
      Tweet_deserializer.simps resolve_full_text_def)

text \<open>
  Claim C5, amended. On a payload of the expected shape every deserializer decides
  whether the required keys are present: it returns the entity when they are, and
  raises \<^verbatim>\<open>KeyError\<close> when one is absent. The expected shape is a dictionary, for the author
  nothing more; for a hashtag, a url, a mention and a symbol, \<^verbatim>\<open>indices\<close> that Python
  iterates; for \<^verbatim>\<open>entities\<close> and for a post, the shapes defined above. The required keys of
  a post are those of the constructor call, those of the resolution of \<^verbatim>\<open>full_text\<close>, those
  of the author and of the \<^verbatim>\<open>entities\<close>, and those of every nested post that is present.
  The fields read with \<^verbatim>\<open>get\<close> are \<^verbatim>\<open>None\<close> when their key is absent: \<^verbatim>\<open>profile_banner_url\<close>,
  \<^verbatim>\<open>quoted_status_id\<close> and \<^verbatim>\<open>possibly_sensitive\<close>. When \<^verbatim>\<open>quoted_status\<close> or \<^verbatim>\<open>retweeted_status\<close> is
  absent the field is \<^verbatim>\<open>None\<close>, and when it is present the field is the post that the
  recursive call returns; when the recursive call raises, the outer call raises.
\<close>

theorem missing_field:
  "decides (TweetUser_deserializer (JObj d)) (has_keys (JObj d) TweetUser_required)
   \<and> (TweetUser_deserializer (JObj d) = Inr u \<and> lookup (JObj d) ''profile_banner_url'' = None \<longrightarrow>
        TweetUser.profile_banner_url u = JNull)
   \<and> (iterable (lookup (JObj d) ''indices'') \<longrightarrow>
        decides (Hashtag_deserializer (JObj d)) (has_keys (JObj d) Hashtag_required)
        \<and> decides (Url_deserializer (JObj d)) (has_keys (JObj d) Url_required)
        \<and> decides (UserMention_deserializer (JObj d)) (has_keys (JObj d) UserMention_required)
        \<and> decides (Symbol_deserializer (JObj d)) (has_keys (JObj d) Symbol_required))
   \<and> (shape_entities (JObj d) \<longrightarrow>
        decides (Entities_deserializer (JObj d)) (complete_entities (JObj d)))
   \<and> (well_shaped_post data \<longrightarrow>
        decides (fst (Tweet_deserializer data)) (complete_post data))
   \<and> (Tweet_deserializer data = (Inr t, data') \<longrightarrow>
        (lookup data ''quoted_status_id'' = None \<longrightarrow> quoted_status_id t = JNull)
        \<and> (lookup data ''possibly_sensitive'' = None \<longrightarrow> possibly_sensitive t = JNull)
        \<and> (lookup data ''quoted_status'' = None \<longrightarrow> quoted_status t = None)
        \<and> (lookup data ''retweeted_status'' = None \<longrightarrow> retweeted_status t = None)
        \<and> (\<forall>q. lookup data ''quoted_status'' = Some q \<longrightarrow>
              (\<exists>qt. fst (Tweet_deserializer q) = Inr qt \<and> quoted_status t = Some qt))
        \<and> (\<forall>r. lookup data ''retweeted_status'' = Some r \<longrightarrow>
              (\<exists>rt. fst (Tweet_deserializer r) = Inr rt \<and> retweeted_status t = Some rt)))
   \<and> (\<forall>k nested e. (k = ''quoted_status'' \<or> k = ''retweeted_status'')
          \<and> lookup data k = Some nested \<and> fst (Tweet_deserializer nested) = Inl e \<longrightarrow>
          (\<exists>e'. fst (Tweet_deserializer data) = Inl e'))"
proof -
  have c1: "decides (TweetUser_deserializer (JObj d)) (has_keys (JObj d) TweetUser_required)"
    by (rule decides_TweetUser)
  have c2: "TweetUser_deserializer (JObj d) = Inr u \<and> lookup (JObj d) ''profile_banner_url'' = None
      \<longrightarrow> TweetUser.profile_banner_url u = JNull"
    by (auto intro: TweetUser_optional)
  have c3: "iterable (lookup (JObj d) ''indices'') \<longrightarrow>
        decides (Hashtag_deserializer (JObj d)) (has_keys (JObj d) Hashtag_required)
        \<and> decides (Url_deserializer (JObj d)) (has_keys (JObj d) Url_required)
        \<and> decides (UserMention_deserializer (JObj d)) (has_keys (JObj d) UserMention_required)
        \<and> decides (Symbol_deserializer (JObj d)) (has_keys (JObj d) Symbol_required)"
    by (simp add: decides_Hashtag decides_Url decides_UserMention decides_Symbol)
  have c4: "shape_entities (JObj d) \<longrightarrow>
        decides (Entities_deserializer (JObj d)) (complete_entities (JObj d))"
    by (simp add: decides_Entities)
  have c5: "well_shaped_post data \<longrightarrow>
        decides (fst (Tweet_deserializer data)) (complete_post data)"
    by (simp add: decides_post)
  have c6: "Tweet_deserializer data = (Inr t, data') \<longrightarrow>
        (lookup data ''quoted_status_id'' = None \<longrightarrow> quoted_status_id t = JNull)
        \<and> (lookup data ''possibly_sensitive'' = None \<longrightarrow> possibly_sensitive t = JNull)
        \<and> (lookup data ''quoted_status'' = None \<longrightarrow> quoted_status t = None)
        \<and> (lookup data ''retweeted_status'' = None \<longrightarrow> retweeted_status t = None)
        \<and> (\<forall>q. lookup data ''quoted_status'' = Some q \<longrightarrow>
              (\<exists>qt. fst (Tweet_deserializer q) = Inr qt \<and> quoted_status t = Some qt))
        \<and> (\<forall>r. lookup data ''retweeted_status'' = Some r \<longrightarrow>
              (\<exists>rt. fst (Tweet_deserializer r) = Inr rt \<and> retweeted_status t = Some rt))"
    by (rule impI) (rule Tweet_deserializer_optional)
  have c7: "\<forall>k nested e. (k = ''quoted_status'' \<or> k = ''retweeted_status'')
          \<and> lookup data k = Some nested \<and> fst (Tweet_deserializer nested) = Inl e \<longrightarrow>
          (\<exists>e'. fst (Tweet_deserializer data) = Inl e')"
  proof (intro allI impI, elim conjE)
    fix k nested e
    assume k: "k = ''quoted_status'' \<or> k = ''retweeted_status''"
      and n: "lookup data k = Some nested"
      and f: "fst (Tweet_deserializer nested) = Inl e"
    show "\<exists>e'. fst (Tweet_deserializer data) = Inl e'"
    proof (cases "fst (Tweet_deserializer data)")
      case (Inl e')
      then show ?thesis by blast
    next
      case (Inr t')
      then have "Tweet_deserializer data = (Inr t', snd (Tweet_deserializer data))"
        by (simp add: prod_eq_iff)
      from Tweet_deserializer_optional [OF this] k n f show ?thesis by auto
    qed
  qed
  show ?thesis
    by (intro conjI; fact)
qed

theorem missing_field_witness:
  "well_shaped_post
     (example_payload ''alice'' [(''truncated'', JBool False), (''text'', JStr ''hello'')])
   \<and> complete_post
     (example_payload ''alice'' [(''truncated'', JBool False), (''text'', JStr ''hello'')])
   \<and> fst (Tweet_deserializer
       (example_payload ''alice'' [(''truncated'', JBool False), (''text'', JStr ''hello'')]))
     = Inr (example_tweet ''alice'' ''hello'' None None)
   \<and> quoted_status (example_tweet ''alice'' ''hello'' None None) = None
   \<and> well_shaped_post example_without_lang
   \<and> lookup example_without_lang ''lang'' = None
   \<and> fst (Tweet_deserializer example_without_lang) = Inl (KeyError ''lang'')
   \<and> TweetUser_deserializer (JObj [(''id'', JInt 7)]) = Inl (KeyError ''name'')
   \<and> Hashtag_deserializer (JObj [(''indices'', JList [JInt 0, JInt 5]), (''text'', JStr ''x'')])
     = Inr (Hashtag [JInt 0, JInt 5] (JStr ''x''))
   \<and> Hashtag_deserializer (JObj [(''indices'', JList [JInt 0, JInt 5])])
     = Inl (KeyError ''text'')"
proof -
  let ?plain = "example_payload ''alice'' [(''truncated'', JBool False), (''text'', JStr ''hello'')]"
  from missing_field [of "[(''id'', JInt 7)]" _ ?plain "example_tweet ''alice'' ''hello'' None None"
      "snd (Tweet_deserializer ?plain)"]
  have 1: "decides (fst (Tweet_deserializer ?plain)) (complete_post ?plain)"
    and 2: "quoted_status (example_tweet ''alice'' ''hello'' None None) = None"
    and 3: "decides (TweetUser_deserializer (JObj [(''id'', JInt 7)]))
              (has_keys (JObj [(''id'', JInt 7)]) TweetUser_required)"
    using example_well_shaped [of "''alice''" "''hello''"] example_plain
    by (simp_all add: example_payload_def)
  from missing_field [of "[(''indices'', JList [JInt 0, JInt 5]), (''text'', JStr ''x'')]" _
      example_without_lang]
  have 4: "decides (fst (Tweet_deserializer example_without_lang))
             (complete_post example_without_lang)"
    and 5: "decides (Hashtag_deserializer
                (JObj [(''indices'', JList [JInt 0, JInt 5]), (''text'', JStr ''x'')]))
             (has_keys (JObj [(''indices'', JList [JInt 0, JInt 5]), (''text'', JStr ''x'')])
                Hashtag_required)"
    using example_without_lang_shape by (simp_all add: iterable_def)
  from missing_field [of "[(''indices'', JList [JInt 0, JInt 5])]"]
  have 6: "decides (Hashtag_deserializer (JObj [(''indices'', JList [JInt 0, JInt 5])]))
             (has_keys (JObj [(''indices'', JList [JInt 0, JInt 5])]) Hashtag_required)"
    by (simp add: iterable_def)
  have l: "lookup example_without_lang ''lang'' = None"
    by (simp add: example_without_lang_def)
  have u: "TweetUser_deserializer (JObj [(''id'', JInt 7)]) = Inl (KeyError ''name'')"
    by (simp add: TweetUser_deserializer_def)
  have h: "Hashtag_deserializer (JObj [(''indices'', JList [JInt 0, JInt 5]), (''text'', JStr ''x'')])
     = Inr (Hashtag [JInt 0, JInt 5] (JStr ''x''))"
    "Hashtag_deserializer (JObj [(''indices'', JList [JInt 0, JInt 5])]) = Inl (KeyError ''text'')"
    by (simp_all add: Hashtag_deserializer_def)
  from 1 2 3 4 5 6 l u h example_well_shaped [of "''alice''" "''hello''"]
    example_complete [of "''alice''" "''hello''"] example_plain example_without_lang_shape
    example_without_lang_raises
  show ?thesis by simp
qed

end
